theory Spec2Isabelle
  imports Main
begin

section \<open>Python values, exceptions and string helpers\<close>

text \<open>
  The module \<^verbatim>\<open>rastervision/v2/core/rv_config.py\<close> is embedded function by function.
  A Python \<^verbatim>\<open>str\<close> is a \<^typ>\<open>string\<close> (characters with code points below 256). A raise is a
  value of type \<open>exn\<close>; the process-wide state (environment, file system, the class
  attribute \<^verbatim>\<open>RVConfig.tmp_dir\<close>, the level of the logger \<^verbatim>\<open>rastervision\<close>) is passed
  explicitly and returned also when the call raises, since the mutations made before a
  raise stay.
\<close>

datatype exn = Exception string | OSError string | JSONDecodeError | TypeError

datatype pyval =
    PyNone
  | PyBool bool
  | PyInt int
  | PyFloat string
  | PyStr string
  | PyList "pyval list"
  | PyDict "(string \<times> pyval) list"

datatype level = DEBUG | INFO | WARN

text \<open>\<^verbatim>\<open>s.replace(a, b)\<close> for one-character \<open>a\<close> and \<open>b\<close>.\<close>

definition replace_char :: "char \<Rightarrow> char \<Rightarrow> string \<Rightarrow> string" where
  "replace_char a b s = map (\<lambda>c. if c = a then b else c) s"

text \<open>\<^verbatim>\<open>s.split(sep)\<close> for a one-character separator: never empty, \<open>''''\<close> gives \<open>['''']\<close>.\<close>

fun split_on :: "char \<Rightarrow> string \<Rightarrow> string list" where
  "split_on sep [] = [[]]"
| "split_on sep (c # cs) =
     (if c = sep then [] # split_on sep cs
      else (case split_on sep cs of
              [] \<Rightarrow> [[c]]
            | w # ws \<Rightarrow> (c # w) # ws))"

text \<open>\<^verbatim>\<open>str.isspace\<close> on the code points below 256, and \<^verbatim>\<open>s.strip()\<close>.\<close>

definition py_isspace :: "char \<Rightarrow> bool" where
  "py_isspace c = (of_char c \<in> {9, 10, 11, 12, 13, 28, 29, 30, 31, 32, 133, 160 :: nat})"

definition strip :: "string \<Rightarrow> string" where
  "strip s = rev (dropWhile py_isspace (rev (dropWhile py_isspace s)))"

text \<open>\<^verbatim>\<open>sep.join(xs)\<close>.\<close>

fun join_str :: "string \<Rightarrow> string list \<Rightarrow> string" where
  "join_str sep [] = []"
| "join_str sep [x] = x"
| "join_str sep (x # y # ys) = x @ sep @ join_str sep (y # ys)"

text \<open>\<^verbatim>\<open>os.path.join(a, b)\<close> of \<^verbatim>\<open>posixpath\<close>: an absolute \<open>b\<close> replaces \<open>a\<close>.\<close>

definition path_join :: "string \<Rightarrow> string \<Rightarrow> string" where
  "path_join a b =
     (if b \<noteq> [] \<and> hd b = CHR ''/'' then b
      else if a = [] \<or> last a = CHR ''/'' then a @ b
      else a @ ''/'' @ b)"

section \<open>The operating system and the process state\<close>

text \<open>
  The file system is a collaborator of the module: its operations are parameters, over
  any type \<open>'fs\<close> of file-system states. An operation that can raise returns the exception
  (\<open>None\<close> when it succeeds) together with the file system it leaves behind.
  \<^item> \<open>os_path_exists\<close>, \<open>os_path_isdir\<close>: \<^verbatim>\<open>os.path.exists\<close>, \<^verbatim>\<open>os.path.isdir\<close>;
  \<^item> \<open>os_makedirs\<close>: \<^verbatim>\<open>os.makedirs(p, exist_ok=True)\<close>;
  \<^item> \<open>path_touch\<close>: \<^verbatim>\<open>Path.touch(Path(p))\<close>;
  \<^item> \<open>tempdir_name\<close>: \<^verbatim>\<open>tempfile.TemporaryDirectory().name\<close>, a fresh path whose directory
    is gone again once the unreferenced object is finalised;
  \<^item> \<open>tempdir_in\<close>: \<^verbatim>\<open>tempfile.TemporaryDirectory(dir=d)\<close>, the path of the directory made
    (\<open>d\<close> may be \<^verbatim>\<open>None\<close>).
\<close>

record 'fs os =
  os_path_exists :: "'fs \<Rightarrow> string \<Rightarrow> bool"
  os_path_isdir :: "'fs \<Rightarrow> string \<Rightarrow> bool"
  os_makedirs :: "'fs \<Rightarrow> string \<Rightarrow> exn option \<times> 'fs"
  path_touch :: "'fs \<Rightarrow> string \<Rightarrow> exn option \<times> 'fs"
  tempdir_name :: "'fs \<Rightarrow> exn + string"
  tempdir_in :: "'fs \<Rightarrow> string option \<Rightarrow> (exn + string) \<times> 'fs"

text \<open>
  The process: \<^verbatim>\<open>os.environ\<close>, the home directory \<^verbatim>\<open>os.path.expanduser('~')\<close>, the working
  directory \<^verbatim>\<open>os.getcwd()\<close>, the file system, the class attribute \<^verbatim>\<open>RVConfig.tmp_dir\<close>
  (\<open>None\<close> at process start), the level of the logger \<^verbatim>\<open>rastervision\<close> (\<open>None\<close>: not set)
  and the records handed to the module's logger, oldest first.
\<close>

record 'fs process =
  environ :: "string \<rightharpoonup> string"
  home :: string
  cwd :: string
  fs :: 'fs
  tmp_dir :: "string option"
  log_level :: "level option"
  log_records :: "(level \<times> string) list"

section \<open>set_tmp_dir, get_tmp_dir_root, get_tmp_dir\<close>

definition DEFAULT_DIR :: string where
  "DEFAULT_DIR = ''/opt/data/tmp/''"

text \<open>Lines 126-132: the list \<^verbatim>\<open>it\<close> before the filter.\<close>

definition tmp_dir_candidates :: "string option \<Rightarrow> 'fs process \<Rightarrow> string option list" where
  "tmp_dir_candidates tmp_dir_arg p =
     [tmp_dir_arg]
     @ [environ p k. k \<leftarrow> [''TMPDIR'', ''TEMP'', ''TMP''], environ p k \<noteq> None]
     @ [tmp_dir p]"

text \<open>Lines 133-137: the entries that are not \<^verbatim>\<open>None\<close>, the first of them, or a fresh name.\<close>

definition explicit_tmp_dir :: "'fs os \<Rightarrow> string option \<Rightarrow> 'fs process \<Rightarrow> exn + string" where
  "explicit_tmp_dir os tmp_dir_arg p =
     (case [d. Some d \<leftarrow> tmp_dir_candidates tmp_dir_arg p] of
        d # _ \<Rightarrow> Inr d
      | [] \<Rightarrow> tempdir_name os (fs p))"

text \<open>Lines 140-148: the body of the \<^verbatim>\<open>try\<close> up to the assignment.\<close>

definition try_tmp_dir :: "'fs os \<Rightarrow> 'fs \<Rightarrow> string \<Rightarrow> exn option \<times> 'fs" where
  "try_tmp_dir os f d =
     (case (if \<not> os_path_exists os f d then os_makedirs os f d else (None, f)) of
        (Some e, f1) \<Rightarrow> (Some e, f1)
      | (None, f1) \<Rightarrow>
          if \<not> os_path_isdir os f1 d
          then (Some (Exception (d @ '' is not a directory.'')), f1)
          else path_touch os f1 (path_join d ''.can_touch''))"

text \<open>Lines 139-158: \<^verbatim>\<open>try\<close> and \<^verbatim>\<open>except Exception\<close>; every exception of the body is caught.\<close>

definition assign_tmp_dir :: "'fs os \<Rightarrow> string \<Rightarrow> 'fs process \<Rightarrow> 'fs process" where
  "assign_tmp_dir os d p =
     (case try_tmp_dir os (fs p) d of
        (None, f1) \<Rightarrow> p\<lparr>fs := f1, tmp_dir := Some d\<rparr>
      | (Some e, f1) \<Rightarrow>
          p\<lparr>fs := f1, tmp_dir := Some DEFAULT_DIR,
            log_records := log_records p @
              [(WARN, ''Root temporary directory cannot be used: '' @ d
                      @ ''. Using root: '' @ DEFAULT_DIR)]\<rparr>)"

text \<open>Lines 159-161: the \<^verbatim>\<open>finally\<close> block; an exception of \<^verbatim>\<open>os.makedirs\<close> leaves the function.\<close>

definition finally_makedirs :: "'fs os \<Rightarrow> 'fs process \<Rightarrow> (exn + unit) \<times> 'fs process" where
  "finally_makedirs os p =
     (case tmp_dir p of
        None \<Rightarrow> (Inl TypeError, p)
      | Some root \<Rightarrow>
          (case os_makedirs os (fs p) root of
             (Some e, f2) \<Rightarrow> (Inl e, p\<lparr>fs := f2\<rparr>)
           | (None, f2) \<Rightarrow>
               (Inr (), p\<lparr>fs := f2,
                  log_records := log_records p @ [(DEBUG, ''Temporary directory is: '' @ root)]\<rparr>)))"

definition set_tmp_dir :: "'fs os \<Rightarrow> string option \<Rightarrow> 'fs process \<Rightarrow> (exn + unit) \<times> 'fs process" where
  "set_tmp_dir os tmp_dir_arg p =
     (case explicit_tmp_dir os tmp_dir_arg p of
        Inl e \<Rightarrow> (Inl e, p)
      | Inr d \<Rightarrow> finally_makedirs os (assign_tmp_dir os d p))"

definition get_tmp_dir_root :: "'fs os \<Rightarrow> 'fs process \<Rightarrow> (exn + string option) \<times> 'fs process" where
  "get_tmp_dir_root os p =
     (if tmp_dir p = None
      then (case set_tmp_dir os None p of
              (Inl e, p') \<Rightarrow> (Inl e, p')
            | (Inr _, p') \<Rightarrow> (Inr (tmp_dir p'), p'))
      else (Inr (tmp_dir p), p))"

definition get_tmp_dir :: "'fs os \<Rightarrow> 'fs process \<Rightarrow> (exn + string) \<times> 'fs process" where
  "get_tmp_dir os p =
     (case (if tmp_dir p = None then set_tmp_dir os None p else (Inr (), p)) of
        (Inl e, p') \<Rightarrow> (Inl e, p')
      | (Inr _, p') \<Rightarrow>
          (case tempdir_in os (fs p') (tmp_dir p') of
             (r, f') \<Rightarrow> (r, p'\<lparr>fs := f'\<rparr>)))"

section \<open>RVConfig: reset and the discovery of configuration files\<close>

definition DEFAULT_PROFILE :: string where
  "DEFAULT_PROFILE = ''default''"

text \<open>
  The class \<^verbatim>\<open>Verbosity\<close> of \<^verbatim>\<open>rastervision.v2.core.verbosity\<close> is not among the sources:
  the two members that \<^verbatim>\<open>reset\<close> compares with are parameters.
\<close>

record verbosity_levels =
  NORMAL :: int
  VERBOSE :: int

text \<open>
  The three environments handed to \<^verbatim>\<open>ConfigManager\<close>, in the order of the list built at
  lines 87-92. The overrides are a mapping from a namespace to its keys and values.
\<close>

type_synonym overrides = "string \<Rightarrow> (string \<Rightarrow> string option) option"

datatype config_env =
    ConfigDictEnv overrides
  | ConfigOSEnv
  | ConfigIniEnv "string list"

record rvconfig =
  verbosity :: int
  rv_home :: string
  config :: "config_env list"

text \<open>\<^verbatim>\<open>os.environ.get(k)\<close> where the code tests it for truth: unset and empty are both false.\<close>

definition environ_truthy :: "'fs process \<Rightarrow> string \<Rightarrow> string option" where
  "environ_truthy p k =
     (case environ p k of
        None \<Rightarrow> None
      | Some v \<Rightarrow> if v = [] then None else Some v)"

text \<open>Lines 164-180: the list \<^verbatim>\<open>result\<close>.\<close>

definition config_file_candidates :: "string \<Rightarrow> string \<Rightarrow> 'fs process \<Rightarrow> string list" where
  "config_file_candidates home_dir profile p =
     (case environ_truthy p ''RV_CONFIG'' of
        Some env_specified_path \<Rightarrow> [env_specified_path]
      | None \<Rightarrow> [])
     @ [case environ_truthy p ''RV_CONFIG_DIR'' of
          Some env_specified_dir_path \<Rightarrow> path_join env_specified_dir_path profile
        | None \<Rightarrow> path_join home_dir profile]
     @ [path_join (cwd p) ''.rastervision'']"

text \<open>\<^verbatim>\<open>any(xs)\<close> on a list of strings: some element is not the empty string.\<close>

definition py_any :: "string list \<Rightarrow> bool" where
  "py_any xs = list_ex (\<lambda>x. x \<noteq> []) xs"

definition not_found_message :: "string \<Rightarrow> string list \<Rightarrow> string" where
  "not_found_message profile result =
     ''Configuration Profile '' @ profile @ '' not found. Checked: '' @ join_str '', '' result"

definition discover_config_file_locations ::
  "'fs os \<Rightarrow> string \<Rightarrow> string \<Rightarrow> 'fs process \<Rightarrow> exn + string list" where
  "discover_config_file_locations os home_dir profile p =
     (let result = config_file_candidates home_dir profile p;
          results_that_exist = filter (os_path_exists os (fs p)) result
      in if \<not> py_any results_that_exist \<and> profile \<noteq> DEFAULT_PROFILE
         then Inl (Exception (not_found_message profile result))
         else Inr results_that_exist)"

text \<open>Lines 57-66: the level given to the logger \<^verbatim>\<open>rastervision\<close>.\<close>

definition level_of :: "verbosity_levels \<Rightarrow> int \<Rightarrow> level" where
  "level_of V v =
     (if v \<ge> VERBOSE V then DEBUG
      else if v \<ge> NORMAL V then INFO
      else WARN)"

text \<open>Lines 71-75.\<close>

definition resolve_profile :: "string option \<Rightarrow> 'fs process \<Rightarrow> string" where
  "resolve_profile profile p =
     (case profile of
        Some pr \<Rightarrow> pr
      | None \<Rightarrow>
          (case environ_truthy p ''RV_PROFILE'' of
             Some pr \<Rightarrow> pr
           | None \<Rightarrow> DEFAULT_PROFILE))"

text \<open>Lines 80-83.\<close>

definition resolve_rv_home :: "string option \<Rightarrow> 'fs process \<Rightarrow> string" where
  "resolve_rv_home rv_home_arg p =
     (case rv_home_arg of
        Some h \<Rightarrow> h
      | None \<Rightarrow> path_join (home p) ''.rastervision'')"

text \<open>Lines 68-69.\<close>

definition tmp_dir_step ::
  "'fs os \<Rightarrow> string option \<Rightarrow> 'fs process \<Rightarrow> (exn + unit) \<times> 'fs process" where
  "tmp_dir_step os tmp_dir_arg p =
     (case tmp_dir_arg of
        Some d \<Rightarrow> set_tmp_dir os (Some d) p
      | None \<Rightarrow> (Inr (), p))"

text \<open>
  \<^verbatim>\<open>reset\<close> (and \<^verbatim>\<open>__init__\<close>, which only calls it): the attributes of the instance on
  success, the exception otherwise, and the process state in both cases.
\<close>

definition reset ::
  "'fs os \<Rightarrow> verbosity_levels \<Rightarrow> string option \<Rightarrow> string option \<Rightarrow> overrides option
     \<Rightarrow> string option \<Rightarrow> int \<Rightarrow> 'fs process \<Rightarrow> (exn + rvconfig) \<times> 'fs process" where
  "reset os V profile rv_home_arg config_overrides tmp_dir_arg verbosity_arg p =
     (let p1 = p\<lparr>log_level := Some (level_of V verbosity_arg)\<rparr> in
      case tmp_dir_step os tmp_dir_arg p1 of
        (Inl e, p2) \<Rightarrow> (Inl e, p2)
      | (Inr _, p2) \<Rightarrow>
          (let profile' = resolve_profile profile p2;
               config_overrides' = (case config_overrides of
                                      None \<Rightarrow> (\<lambda>_. None)
                                    | Some ov \<Rightarrow> ov);
               rv_home' = resolve_rv_home rv_home_arg p2
           in case discover_config_file_locations os rv_home' profile' p2 of
                Inl e \<Rightarrow> (Inl e, p2)
              | Inr config_file_locations \<Rightarrow>
                  (Inr \<lparr>verbosity = verbosity_arg, rv_home = rv_home',
                        config = [ConfigDictEnv config_overrides', ConfigOSEnv,
                                  ConfigIniEnv config_file_locations]\<rparr>,
                   p2)))"

definition get_verbosity :: "rvconfig \<Rightarrow> int" where
  "get_verbosity self = verbosity self"

section \<open>load_conf_list and the JSON decoder\<close>

text \<open>
  \<^verbatim>\<open>load_conf_list\<close> (lines 15-30). \<^verbatim>\<open>json.loads\<close> is the parameter \<open>loads\<close>; only its
  \<^verbatim>\<open>JSONDecodeError\<close> is caught, and whatever value it decodes is returned as it is.
\<close>

definition load_conf_list :: "(string \<Rightarrow> exn + pyval) \<Rightarrow> string \<Rightarrow> exn + pyval" where
  "load_conf_list loads s =
     (case loads (replace_char (CHR 0x27) (CHR 0x22) s) of
        Inr v \<Rightarrow> Inr v
      | Inl e \<Rightarrow>
          if e = JSONDecodeError
          then Inr (PyList (map (\<lambda>x. PyStr (strip x)) (split_on (CHR '','') s)))
          else Inl e)"

text \<open>
  A decoder for the grammar that Python's \<^verbatim>\<open>json\<close> module reads, used to run
  \<^verbatim>\<open>load_conf_list\<close> on concrete strings: white space is blank, tab, line feed and carriage
  return; an integer literal gives an \<^verbatim>\<open>int\<close>, a literal with fraction or exponent a
  \<^verbatim>\<open>float\<close> (kept as its text); \<^verbatim>\<open>NaN\<close>, \<^verbatim>\<open>Infinity\<close> and \<^verbatim>\<open>-Infinity\<close> are read;
  a repeated key of an object keeps its first place and its last value. An escape
  \<^verbatim>\<open>\uXXXX\<close> is read when its character is below 256 and rejected otherwise, since
  \<^typ>\<open>char\<close> has no such character. The recursion is bounded by a counter that
  \<open>json_loads\<close> starts at twice the length of the text plus two: a nested value takes
  at most two steps of the counter and at least one character of the text.

  The decoder stands in for the standard library's and is not the same function on every
  text. Besides the escapes above, it decides a text nested deeper than Python's recursion
  limit, where \<^verbatim>\<open>json.loads\<close> raises \<^verbatim>\<open>RecursionError\<close>, and an integer literal longer than
  Python's limit on the digits of an \<^verbatim>\<open>int\<close>, where \<^verbatim>\<open>json.loads\<close> raises \<^verbatim>\<open>ValueError\<close>.
  The general statements about \<^verbatim>\<open>load_conf_list\<close> take the decoder as a parameter; this one
  is applied only to the short texts of the examples, on which the two agree.
\<close>

definition is_ws :: "char \<Rightarrow> bool" where
  "is_ws c = (of_char c \<in> {32, 9, 10, 13 :: nat})"

definition skip_ws :: "string \<Rightarrow> string" where
  "skip_ws s = dropWhile is_ws s"

definition is_digit :: "char \<Rightarrow> bool" where
  "is_digit c = (48 \<le> (of_char c :: nat) \<and> (of_char c :: nat) \<le> 57)"

definition digits_value :: "string \<Rightarrow> nat" where
  "digits_value ds = foldl (\<lambda>n c. 10 * n + (of_char c - 48)) 0 ds"

definition hex_value :: "char \<Rightarrow> nat option" where
  "hex_value c =
     (let n = (of_char c :: nat) in
      if 48 \<le> n \<and> n \<le> 57 then Some (n - 48)
      else if 65 \<le> n \<and> n \<le> 70 then Some (n - 55)
      else if 97 \<le> n \<and> n \<le> 102 then Some (n - 87)
      else None)"

definition hex4 :: "char \<Rightarrow> char \<Rightarrow> char \<Rightarrow> char \<Rightarrow> nat option" where
  "hex4 a b c d =
     (case (hex_value a, hex_value b, hex_value c, hex_value d) of
        (Some w, Some x, Some y, Some z) \<Rightarrow> Some (((w * 16 + x) * 16 + y) * 16 + z)
      | _ \<Rightarrow> None)"

definition unescape :: "char \<Rightarrow> char option" where
  "unescape e =
     (if e = CHR 0x22 then Some (CHR 0x22)
      else if e = CHR 0x5C then Some (CHR 0x5C)
      else if e = CHR ''/'' then Some (CHR ''/'')
      else if e = CHR ''b'' then Some (CHR 0x08)
      else if e = CHR ''f'' then Some (CHR 0x0C)
      else if e = CHR ''n'' then Some (CHR 0x0A)
      else if e = CHR ''r'' then Some (CHR 0x0D)
      else if e = CHR ''t'' then Some (CHR 0x09)
      else None)"

definition push_char :: "char \<Rightarrow> (string \<times> string) option \<Rightarrow> (string \<times> string) option" where
  "push_char c r = (case r of None \<Rightarrow> None | Some (t, rest) \<Rightarrow> Some (c # t, rest))"

text \<open>The text of a string after its opening quote: the decoded string and what follows.\<close>

fun scan_string :: "string \<Rightarrow> (string \<times> string) option" where
  "scan_string [] = None"
| "scan_string (c # cs) =
     (if c = CHR 0x22 then Some ([], cs)
      else if c = CHR 0x5C then
        (case cs of
           [] \<Rightarrow> None
         | e # cs1 \<Rightarrow>
             if e = CHR ''u'' then
               (case cs1 of
                  a # b # x # y # cs2 \<Rightarrow>
                    (case hex4 a b x y of
                       None \<Rightarrow> None
                     | Some n \<Rightarrow> if n < 256 then push_char (char_of n) (scan_string cs2) else None)
                | _ \<Rightarrow> None)
             else
               (case unescape e of
                  None \<Rightarrow> None
                | Some ch \<Rightarrow> push_char ch (scan_string cs1)))
      else if (of_char c :: nat) < 32 then None
      else push_char c (scan_string cs))"

definition starts_with :: "string \<Rightarrow> string \<Rightarrow> bool" where
  "starts_with pre s = (take (length pre) s = pre)"

text \<open>The exponent \<^verbatim>\<open>[eE][-+]?\d+\<close> at the head of the text, or nothing.\<close>

definition scan_exponent :: "string \<Rightarrow> string \<times> string" where
  "scan_exponent s =
     (case s of
        e # sg # r \<Rightarrow>
          if e = CHR ''e'' \<or> e = CHR ''E'' then
            (if is_digit sg
             then (e # takeWhile is_digit (sg # r), dropWhile is_digit (sg # r))
             else if (sg = CHR ''+'' \<or> sg = CHR ''-'') \<and> r \<noteq> [] \<and> is_digit (hd r)
             then (e # sg # takeWhile is_digit r, dropWhile is_digit r)
             else ([], s))
          else ([], s)
      | _ \<Rightarrow> ([], s))"

text \<open>The fraction \<^verbatim>\<open>\.\d+\<close> at the head of the text, or nothing.\<close>

definition scan_fraction :: "string \<Rightarrow> string \<times> string" where
  "scan_fraction s =
     (case s of
        d # x # r \<Rightarrow>
          if d = CHR ''.'' \<and> is_digit x
          then (d # takeWhile is_digit (x # r), dropWhile is_digit (x # r))
          else ([], s)
      | _ \<Rightarrow> ([], s))"

text \<open>A number \<^verbatim>\<open>-?(0|[1-9]\d*)(\.\d+)?([eE][-+]?\d+)?\<close> at the head of the text.\<close>

definition scan_number :: "string \<Rightarrow> (pyval \<times> string) option" where
  "scan_number s =
     (let neg = (s \<noteq> [] \<and> hd s = CHR ''-'');
          s1 = (if neg then tl s else s)
      in case s1 of
           [] \<Rightarrow> None
         | c # r \<Rightarrow>
             if \<not> is_digit c then None
             else
               (let ip = (if c = CHR ''0'' then [c] else takeWhile is_digit s1);
                    s2 = (if c = CHR ''0'' then r else dropWhile is_digit s1);
                    (frac, s3) = scan_fraction s2;
                    (ex, s4) = scan_exponent s3
                in if frac = [] \<and> ex = []
                   then Some (PyInt (if neg then - int (digits_value ip) else int (digits_value ip)), s4)
                   else Some (PyFloat ((if neg then ''-'' else []) @ ip @ frac @ ex), s4)))"

text \<open>A \<^verbatim>\<open>dict\<close> assignment on the list of items.\<close>

fun dict_set :: "(string \<times> pyval) list \<Rightarrow> string \<Rightarrow> pyval \<Rightarrow> (string \<times> pyval) list" where
  "dict_set [] k v = [(k, v)]"
| "dict_set ((k', v') # kvs) k v =
     (if k' = k then (k, v) # kvs else (k', v') # dict_set kvs k v)"

fun scan_once :: "nat \<Rightarrow> string \<Rightarrow> (pyval \<times> string) option"
and scan_elems :: "nat \<Rightarrow> string \<Rightarrow> pyval list \<Rightarrow> (pyval \<times> string) option"
and scan_members :: "nat \<Rightarrow> string \<Rightarrow> (string \<times> pyval) list \<Rightarrow> (pyval \<times> string) option"
where
  "scan_once 0 s = None"
| "scan_once (Suc n) s =
     (case s of
        [] \<Rightarrow> None
      | c # cs \<Rightarrow>
          if c = CHR 0x22 then
            (case scan_string cs of None \<Rightarrow> None | Some (t, r) \<Rightarrow> Some (PyStr t, r))
          else if c = CHR 0x7B then
            (case skip_ws cs of
               [] \<Rightarrow> None
             | x # r \<Rightarrow> if x = CHR 0x7D then Some (PyDict [], r) else scan_members n (x # r) [])
          else if c = CHR ''['' then
            (case skip_ws cs of
               [] \<Rightarrow> None
             | x # r \<Rightarrow> if x = CHR '']'' then Some (PyList [], r) else scan_elems n (x # r) [])
          else if starts_with ''null'' s then Some (PyNone, drop 4 s)
          else if starts_with ''true'' s then Some (PyBool True, drop 4 s)
          else if starts_with ''false'' s then Some (PyBool False, drop 5 s)
          else
            (case scan_number s of
               Some r \<Rightarrow> Some r
             | None \<Rightarrow>
                 if starts_with ''NaN'' s then Some (PyFloat ''NaN'', drop 3 s)
                 else if starts_with ''Infinity'' s then Some (PyFloat ''Infinity'', drop 8 s)
                 else if starts_with ''-Infinity'' s then Some (PyFloat ''-Infinity'', drop 9 s)
                 else None))"
| "scan_elems 0 s acc = None"
| "scan_elems (Suc n) s acc =
     (case scan_once n s of
        None \<Rightarrow> None
      | Some (v, r) \<Rightarrow>
          (case skip_ws r of
             [] \<Rightarrow> None
           | x # r' \<Rightarrow>
               if x = CHR '']'' then Some (PyList (acc @ [v]), r')
               else if x = CHR '','' then scan_elems n (skip_ws r') (acc @ [v])
               else None))"
| "scan_members 0 s acc = None"
| "scan_members (Suc n) s acc =
     (case s of
        [] \<Rightarrow> None
      | q # cs \<Rightarrow>
          if q \<noteq> CHR 0x22 then None
          else
            (case scan_string cs of
               None \<Rightarrow> None
             | Some (k, r) \<Rightarrow>
                 (case skip_ws r of
                    [] \<Rightarrow> None
                  | colon # r1 \<Rightarrow>
                      if colon \<noteq> CHR '':'' then None
                      else
                        (case scan_once n (skip_ws r1) of
                           None \<Rightarrow> None
                         | Some (v, r2) \<Rightarrow>
                             (case skip_ws r2 of
                                [] \<Rightarrow> None
                              | x # r3 \<Rightarrow>
                                  if x = CHR 0x7D then Some (PyDict (dict_set acc k v), r3)
                                  else if x = CHR '',''
                                  then scan_members n (skip_ws r3) (dict_set acc k v)
                                  else None)))))"

definition json_loads :: "string \<Rightarrow> exn + pyval" where
  "json_loads s =
     (case scan_once (2 * length s + 2) (skip_ws s) of
        None \<Rightarrow> Inl JSONDecodeError
      | Some (v, r) \<Rightarrow> if skip_ws r = [] then Inr v else Inl JSONDecodeError)"

section \<open>get_subconfig, get_config_dict, get_plugin_modules\<close>

text \<open>
  \<^verbatim>\<open>self.config.with_namespace(namespace)\<close> gives a view of the manager bound to the
  namespace. What the package \<^verbatim>\<open>everett\<close> does with a view is a parameter of the
  functions that use one: \<open>call\<close> for \<^verbatim>\<open>view(key)\<close>, \<open>call_default\<close> for
  \<^verbatim>\<open>view(key, default=d)\<close> and \<open>truth\<close> for the truth value of the view.
\<close>

record view =
  view_envs :: "config_env list"
  view_namespace :: string

definition get_subconfig :: "rvconfig \<Rightarrow> string \<Rightarrow> view" where
  "get_subconfig self namespace = \<lparr>view_envs = config self, view_namespace = namespace\<rparr>"




text \<open>\<^verbatim>\<open>get_plugin_modules\<close> (lines 207-212).\<close>

definition get_plugin_modules ::
  "(view \<Rightarrow> bool) \<Rightarrow> (view \<Rightarrow> string \<Rightarrow> string \<Rightarrow> exn + string) \<Rightarrow> (string \<Rightarrow> exn + pyval)
     \<Rightarrow> rvconfig \<Rightarrow> exn + pyval" where
  "get_plugin_modules truth call_default loads self =
     (let plugin_config = get_subconfig self ''PLUGINS'' in
      if truth plugin_config then
        (case call_default plugin_config ''modules'' [] of
           Inl e \<Rightarrow> Inl e
         | Inr plugin_modules \<Rightarrow>
             if plugin_modules \<noteq> [] then load_conf_list loads plugin_modules
             else Inr (PyList []))
      else Inr (PyList []))"

section \<open>Sequences of operations\<close>

text \<open>
  The operations that read or write the root, as a caller can issue them one after the
  other; \<open>exec\<close> gives the process an operation leaves, whether it returns or raises.
\<close>

datatype op =
    SetTmpDir "string option"
  | GetTmpDirRoot
  | GetTmpDir
  | Reset "string option" "string option" "overrides option" "string option" int

fun exec :: "'fs os \<Rightarrow> verbosity_levels \<Rightarrow> op \<Rightarrow> 'fs process \<Rightarrow> 'fs process" where
  "exec os V (SetTmpDir a) p = snd (set_tmp_dir os a p)"
| "exec os V GetTmpDirRoot p = snd (get_tmp_dir_root os p)"
| "exec os V GetTmpDir p = snd (get_tmp_dir os p)"
| "exec os V (Reset profile rv_home_arg config_overrides tmp_dir_arg v) p =
     snd (reset os V profile rv_home_arg config_overrides tmp_dir_arg v p)"

definition run :: "'fs os \<Rightarrow> verbosity_levels \<Rightarrow> op list \<Rightarrow> 'fs process \<Rightarrow> 'fs process" where
  "run os V ops p = foldl (\<lambda>q x. exec os V x q) p ops"

text \<open>
  What the \<^verbatim>\<open>try\<close> block of \<^verbatim>\<open>set_tmp_dir\<close> establishes about a path \<open>d\<close> on the file
  system \<open>f\<close>: \<open>d\<close> exists or can be created, it is a directory then, and the marker
  file can be written in it.
\<close>

definition passed_checks :: "'fs os \<Rightarrow> 'fs \<Rightarrow> string \<Rightarrow> bool" where
  "passed_checks os f d =
     (let made = (if \<not> os_path_exists os f d then os_makedirs os f d else (None, f))
      in fst made = None
         \<and> os_path_isdir os (snd made) d
         \<and> fst (path_touch os (snd made) (path_join d ''.can_touch'')) = None)"

text \<open>
  Operation number \<open>n\<close> of \<open>ops\<close> found \<open>d\<close> passing these checks on the file system it
  started from, and after every operation from then on the root has been \<open>d\<close>.
\<close>

definition set_and_kept ::
  "'fs os \<Rightarrow> verbosity_levels \<Rightarrow> 'fs process \<Rightarrow> op list \<Rightarrow> string \<Rightarrow> nat \<Rightarrow> bool" where
  "set_and_kept os V p0 ops d n =
     (passed_checks os (fs (run os V (take n ops) p0)) d
      \<and> (\<forall>m\<in>{n<..length ops}. tmp_dir (run os V (take m ops) p0) = Some d))"

section \<open>The pairs of a schema\<close>


definition dict_key :: "string \<times> string \<Rightarrow> string" where
  "dict_key nk = fst nk @ ''_'' @ snd nk"

definition lookup_of :: "(view \<Rightarrow> string \<Rightarrow> exn + 'v) \<Rightarrow> rvconfig \<Rightarrow> string \<times> string \<Rightarrow> exn + 'v" where
  "lookup_of call self nk = call (get_subconfig self (fst nk)) (snd nk)"

fun store_pairs ::
  "(view \<Rightarrow> string \<Rightarrow> exn + 'v) \<Rightarrow> rvconfig \<Rightarrow> (string \<times> string) list
     \<Rightarrow> (string \<rightharpoonup> 'v) \<Rightarrow> exn + (string \<rightharpoonup> 'v)" where
  "store_pairs call self [] config_dict = Inr config_dict"
| "store_pairs call self (nk # rest) config_dict =
     (case lookup_of call self nk of
        Inl e \<Rightarrow> Inl e
      | Inr v \<Rightarrow> store_pairs call self rest (config_dict(dict_key nk \<mapsto> v)))"


section \<open>The configuration engine, from the specification\<close>

text \<open>
  Modelled from the spec: the layered key-value engine (the package \<^verbatim>\<open>everett\<close>:
  \<^verbatim>\<open>ConfigManager\<close> and its three environments), which is not among the sources. The spec
  treats it as a black box over an ordered list of sources: a lookup within a namespace
  returns the value of the first source, in the order of the list, that defines the key;
  if none defines it, the caller-supplied default or "undefined" (\<open>None\<close>). The overrides
  map a namespace to its keys; the environment defines \<^verbatim>\<open>NS.key\<close> by the variable
  \<^verbatim>\<open>NS_key\<close>; the file locations are read in their order, an earlier location before a
  later one. The content of the files is the parameter \<open>ini\<close>: the value, if any, that the
  file at a location gives to a key of a namespace.
\<close>

fun first_some :: "'a option list \<Rightarrow> 'a option" where
  "first_some [] = None"
| "first_some (None # xs) = first_some xs"
| "first_some (Some x # xs) = Some x"

fun env_value ::
  "(string \<Rightarrow> string \<Rightarrow> string \<Rightarrow> string option) \<Rightarrow> (string \<rightharpoonup> string) \<Rightarrow> config_env
     \<Rightarrow> string \<Rightarrow> string \<Rightarrow> string option" where
  "env_value ini env (ConfigDictEnv ov) namespace key =
     (case ov namespace of None \<Rightarrow> None | Some m \<Rightarrow> m key)"
| "env_value ini env ConfigOSEnv namespace key = env (namespace @ ''_'' @ key)"
| "env_value ini env (ConfigIniEnv locations) namespace key =
     first_some (map (\<lambda>location. ini location namespace key) locations)"

definition manager_lookup ::
  "(string \<Rightarrow> string \<Rightarrow> string \<Rightarrow> string option) \<Rightarrow> (string \<rightharpoonup> string) \<Rightarrow> config_env list
     \<Rightarrow> string \<Rightarrow> string \<Rightarrow> string option \<Rightarrow> string option" where
  "manager_lookup ini env envs namespace key dflt =
     (case first_some (map (\<lambda>e. env_value ini env e namespace key) envs) of
        Some v \<Rightarrow> Some v
      | None \<Rightarrow> dflt)"


section \<open>A small operating system to run the model on\<close>

text \<open>
  A concrete instance of the operations, for evaluating the model on concrete inputs:
  a file system is the list of its directories, the list of its files and the list of
  the paths that cannot be created or written (a read-only mount, a missing permission).
  The empty path does not exist and cannot be created, as in POSIX.
\<close>

record sample_fs =
  dirs :: "string list"
  files :: "string list"
  locked :: "string list"

definition sample_os :: "sample_fs os" where
  "sample_os =
     \<lparr>os_path_exists = (\<lambda>f q. q \<noteq> [] \<and> (q \<in> set (dirs f) \<or> q \<in> set (files f))),
      os_path_isdir = (\<lambda>f q. q \<noteq> [] \<and> q \<in> set (dirs f)),
      os_makedirs = (\<lambda>f q.
        if q \<noteq> [] \<and> q \<in> set (dirs f) then (None, f)
        else if q = [] \<or> q \<in> set (files f) \<or> q \<in> set (locked f) then (Some (OSError q), f)
        else (None, f\<lparr>dirs := q # dirs f\<rparr>)),
      path_touch = (\<lambda>f q.
        if q = [] \<or> q \<in> set (locked f) then (Some (OSError q), f)
        else if q \<in> set (files f) \<or> q \<in> set (dirs f) then (None, f)
        else (None, f\<lparr>files := q # files f\<rparr>)),
      tempdir_name = (\<lambda>f. Inr ''/tmp/tmpk3x9''),
      tempdir_in = (\<lambda>f d.
        (case d of
           None \<Rightarrow> (Inr ''/tmp/tmpk3x9'', f\<lparr>dirs := ''/tmp/tmpk3x9'' # dirs f\<rparr>)
         | Some root \<Rightarrow>
             if root \<in> set (dirs f) \<and> path_join root ''tmpk3x9'' \<notin> set (locked f)
             then (Inr (path_join root ''tmpk3x9''),
                   f\<lparr>dirs := path_join root ''tmpk3x9'' # dirs f\<rparr>)
             else (Inl (OSError root), f)))\<rparr>"

text \<open>A process at its start: nothing in the environment, an empty disk, no root chosen.\<close>

definition sample_process :: "sample_fs process" where
  "sample_process =
     \<lparr>environ = (\<lambda>_. None), home = ''/home/rv'', cwd = ''/work'',
      fs = \<lparr>dirs = [], files = [], locked = []\<rparr>,
      tmp_dir = None, log_level = None, log_records = []\<rparr>"

definition sample_levels :: verbosity_levels where
  "sample_levels = \<lparr>NORMAL = 1, VERBOSE = 2\<rparr>"

text \<open>The same process with \<^verbatim>\<open>TMPDIR=/scratch\<close> in its environment.\<close>

definition env_process :: "sample_fs process" where
  "env_process = sample_process\<lparr>environ := [''TMPDIR'' \<mapsto> ''/scratch'']\<rparr>"

text \<open>
  Disks with a read-only mount: \<^verbatim>\<open>/ro/x\<close> cannot be created; in the second the default
  root cannot be created either; in the third its marker file cannot be written.
\<close>

definition readonly_mount_process :: "sample_fs process" where
  "readonly_mount_process =
     sample_process\<lparr>fs := \<lparr>dirs = [], files = [], locked = [''/ro/x'']\<rparr>\<rparr>"

definition readonly_process :: "sample_fs process" where
  "readonly_process =
     sample_process\<lparr>fs := \<lparr>dirs = [], files = [], locked = [''/ro/x'', ''/opt/data/tmp/'']\<rparr>\<rparr>"

definition unwritable_default_process :: "sample_fs process" where
  "unwritable_default_process =
     sample_process\<lparr>fs := \<lparr>dirs = [], files = [],
                             locked = [''/ro/x'', ''/opt/data/tmp/.can_touch'']\<rparr>\<rparr>"

text \<open>
  A lookup engine over a table of namespaced keys, for running the functions that take
  one: a key that the table lacks resolves to the default, or to \<open>None\<close> (undefined) when
  no default is given; every view is true, as a Python object is unless its class says
  otherwise.
\<close>

definition table_call ::
  "((string \<times> string) \<times> string) list \<Rightarrow> view \<Rightarrow> string \<Rightarrow> exn + string option" where
  "table_call t v key = Inr (map_of t (view_namespace v, key))"

definition table_call_default ::
  "((string \<times> string) \<times> string) list \<Rightarrow> view \<Rightarrow> string \<Rightarrow> string \<Rightarrow> exn + string" where
  "table_call_default t v key d =
     Inr (case map_of t (view_namespace v, key) of Some x \<Rightarrow> x | None \<Rightarrow> d)"

text \<open>The instance that \<^verbatim>\<open>RVConfig()\<close> builds in the sample process.\<close>

definition sample_self :: rvconfig where
  "sample_self =
     \<lparr>verbosity = 1, rv_home = ''/home/rv/.rastervision'',
      config = [ConfigDictEnv (\<lambda>_. None), ConfigOSEnv, ConfigIniEnv []]\<rparr>"

text \<open>
  A process with \<^verbatim>\<open>FOO_bar=2\<close> in its environment and the file \<^verbatim>\<open>/work/.rastervision\<close>,
  whose content gives 3 to \<^verbatim>\<open>FOO.bar\<close> and 4 to \<^verbatim>\<open>FOO.baz\<close>; and overrides that give 1 to
  \<^verbatim>\<open>FOO.bar\<close>.
\<close>

definition layered_process :: "sample_fs process" where
  "layered_process =
     sample_process\<lparr>environ := [''FOO_bar'' \<mapsto> ''2''],
                    fs := \<lparr>dirs = [], files = [''/work/.rastervision''], locked = []\<rparr>\<rparr>"

definition layered_ini :: "string \<Rightarrow> string \<Rightarrow> string \<Rightarrow> string option" where
  "layered_ini location namespace key =
     (if location = ''/work/.rastervision'' \<and> namespace = ''FOO''
      then (if key = ''bar'' then Some ''3'' else if key = ''baz'' then Some ''4'' else None)
      else None)"

definition layered_overrides :: overrides where
  "layered_overrides = [''FOO'' \<mapsto> [''bar'' \<mapsto> ''1'']]"



section \<open>Facts about set_tmp_dir\<close>

lemma assign_tmp_dir_log_level: "log_level (assign_tmp_dir os d p) = log_level p"
  by (cases "try_tmp_dir os (fs p) d") (simp add: assign_tmp_dir_def split: option.splits)

lemma finally_makedirs_log_level: "log_level (snd (finally_makedirs os p)) = log_level p"
  by (simp add: finally_makedirs_def split: prod.splits option.splits)

lemma set_tmp_dir_log_level: "log_level (snd (set_tmp_dir os a p)) = log_level p"
  by (cases "explicit_tmp_dir os a p")
     (simp_all add: set_tmp_dir_def finally_makedirs_log_level assign_tmp_dir_log_level)

lemma tmp_dir_step_log_level: "log_level (snd (tmp_dir_step os a p)) = log_level p"
  by (cases a) (simp_all add: tmp_dir_step_def set_tmp_dir_log_level)

lemma finally_makedirs_tmp_dir: "tmp_dir (snd (finally_makedirs os p)) = tmp_dir p"
  by (simp add: finally_makedirs_def split: prod.splits option.splits)

lemma assign_tmp_dir_cases:
  "tmp_dir (assign_tmp_dir os d p) =
     Some (if fst (try_tmp_dir os (fs p) d) = None then d else DEFAULT_DIR)"
  by (cases "try_tmp_dir os (fs p) d") (simp add: assign_tmp_dir_def split: option.splits)

text \<open>The process state after \<^verbatim>\<open>reset\<close> is the one its \<^verbatim>\<open>tmp_dir\<close> step leaves.\<close>

lemma reset_state:
  "snd (reset os V profile rv_home_arg config_overrides tmp_dir_arg v p) =
     snd (tmp_dir_step os tmp_dir_arg (p\<lparr>log_level := Some (level_of V v)\<rparr>))"
proof (cases "tmp_dir_step os tmp_dir_arg (p\<lparr>log_level := Some (level_of V v)\<rparr>)")
  case (Pair r p2)
  show ?thesis
  proof (cases r)
    case (Inl e)
    with Pair show ?thesis by (simp add: reset_def)
  next
    case (Inr u)
    with Pair show ?thesis
      by (cases "discover_config_file_locations os (resolve_rv_home rv_home_arg p2)
                   (resolve_profile profile p2) p2")
         (simp_all add: reset_def Let_def)
  qed
qed

section \<open>The logging level set by reset\<close>

text \<open>
  C8. Whatever the arguments and the process state, and whether \<^verbatim>\<open>reset\<close> returns or
  raises, the logger's level afterwards is the one the verbosity selects: debug from
  \<^verbatim>\<open>VERBOSE\<close> on, else info from \<^verbatim>\<open>NORMAL\<close> on, else warning.
\<close>

theorem reset_sets_log_level:
  "log_level (snd (reset os V profile rv_home_arg config_overrides tmp_dir_arg v p)) =
     Some (if v \<ge> VERBOSE V then DEBUG else if v \<ge> NORMAL V then INFO else WARN)"
  by (simp add: reset_state tmp_dir_step_log_level level_of_def)

text \<open>The three levels are reached, here with \<^verbatim>\<open>NORMAL = 1\<close> and \<^verbatim>\<open>VERBOSE = 2\<close>.\<close>

theorem reset_sets_log_level_witness:
  "log_level (snd (reset sample_os sample_levels None None None None 2 sample_process)) = Some DEBUG
   \<and> log_level (snd (reset sample_os sample_levels None None None None 1 sample_process)) = Some INFO
   \<and> log_level (snd (reset sample_os sample_levels (Some ''missing'') None None None 0 sample_process))
       = Some WARN"
  using reset_sets_log_level [of sample_os sample_levels None None None None 2 sample_process]
    reset_sets_log_level [of sample_os sample_levels None None None None 1 sample_process]
    reset_sets_log_level [of sample_os sample_levels "Some ''missing''" None None None 0 sample_process]
  by (simp add: sample_levels_def)

lemma set_tmp_dir_root:
  "explicit_tmp_dir os a p = Inr d \<Longrightarrow>
   tmp_dir (snd (set_tmp_dir os a p)) =
     Some (if fst (try_tmp_dir os (fs p) d) = None then d else DEFAULT_DIR)"
  by (simp add: set_tmp_dir_def finally_makedirs_tmp_dir assign_tmp_dir_cases)

lemma explicit_tmp_dir_given: "explicit_tmp_dir os (Some d) p = Inr d"
  by (simp add: explicit_tmp_dir_def tmp_dir_candidates_def)

section \<open>The candidate of set_tmp_dir\<close>

text \<open>
  C3, as amended. The candidate is the first entry that is present (not \<^verbatim>\<open>None\<close>) among:
  the explicit argument, the values of \<^verbatim>\<open>TMPDIR\<close>, \<^verbatim>\<open>TEMP\<close> and \<^verbatim>\<open>TMP\<close> that are set,
  and the cached root; when none is present it is the name the platform generates. An
  empty string is present: it is chosen like any other value. A candidate that passes
  the checks becomes the root.
\<close>

theorem tmp_dir_candidate_order:
  "explicit_tmp_dir os a p =
     (case a of Some d \<Rightarrow> Inr d | None \<Rightarrow>
      (case environ p ''TMPDIR'' of Some d \<Rightarrow> Inr d | None \<Rightarrow>
       (case environ p ''TEMP'' of Some d \<Rightarrow> Inr d | None \<Rightarrow>
        (case environ p ''TMP'' of Some d \<Rightarrow> Inr d | None \<Rightarrow>
         (case tmp_dir p of Some d \<Rightarrow> Inr d | None \<Rightarrow> tempdir_name os (fs p))))))
   \<and> (\<forall>d. explicit_tmp_dir os a p = Inr d \<and> fst (try_tmp_dir os (fs p) d) = None
          \<longrightarrow> tmp_dir (snd (set_tmp_dir os a p)) = Some d)"
proof -
  have "explicit_tmp_dir os a p =
     (case a of Some d \<Rightarrow> Inr d | None \<Rightarrow>
      (case environ p ''TMPDIR'' of Some d \<Rightarrow> Inr d | None \<Rightarrow>
       (case environ p ''TEMP'' of Some d \<Rightarrow> Inr d | None \<Rightarrow>
        (case environ p ''TMP'' of Some d \<Rightarrow> Inr d | None \<Rightarrow>
         (case tmp_dir p of Some d \<Rightarrow> Inr d | None \<Rightarrow> tempdir_name os (fs p))))))"
    by (simp add: explicit_tmp_dir_def tmp_dir_candidates_def split: option.splits)
  moreover have "\<forall>d. explicit_tmp_dir os a p = Inr d \<and> fst (try_tmp_dir os (fs p) d) = None
          \<longrightarrow> tmp_dir (snd (set_tmp_dir os a p)) = Some d"
    by (simp add: set_tmp_dir_root)
  ultimately show ?thesis by (rule conjI)
qed

text \<open>With no argument and \<^verbatim>\<open>TMPDIR=/scratch\<close>, the candidate and the root are \<^verbatim>\<open>/scratch\<close>.\<close>

theorem tmp_dir_candidate_order_witness:
  "explicit_tmp_dir sample_os None env_process = Inr ''/scratch''
   \<and> tmp_dir (snd (set_tmp_dir sample_os None env_process)) = Some ''/scratch''"
proof -
  have c: "explicit_tmp_dir sample_os None env_process = Inr ''/scratch''"
    using tmp_dir_candidate_order [of sample_os None env_process]
    by (simp add: env_process_def sample_process_def)
  have t: "fst (try_tmp_dir sample_os (fs env_process) ''/scratch'') = None"
    by (simp add: try_tmp_dir_def sample_os_def env_process_def sample_process_def path_join_def)
  from c t tmp_dir_candidate_order [of sample_os None env_process]
  show ?thesis by blast
qed

text \<open>
  As stated, the claim skips an empty candidate. The code does not: with the explicit
  argument \<open>''''\<close> and \<^verbatim>\<open>TMPDIR=/scratch\<close>, the candidate is the empty string, not
  \<^verbatim>\<open>/scratch\<close>, and the root ends at the default.
\<close>

theorem tmp_dir_candidate_empty_counterexample:
  "explicit_tmp_dir sample_os (Some []) env_process = Inr []
   \<and> explicit_tmp_dir sample_os (Some []) env_process \<noteq> Inr ''/scratch''
   \<and> tmp_dir (snd (set_tmp_dir sample_os (Some []) env_process)) = Some DEFAULT_DIR"
  by (simp add: set_tmp_dir_def finally_makedirs_def assign_tmp_dir_def try_tmp_dir_def
      explicit_tmp_dir_def tmp_dir_candidates_def env_process_def sample_process_def
      sample_os_def DEFAULT_DIR_def)

section \<open>The discovery of the configuration files\<close>

lemma py_any_existing:
  assumes "\<not> os_path_exists os f []"
  shows "py_any (filter (os_path_exists os f) xs) = (\<exists>c\<in>set xs. os_path_exists os f c)"
  using assms by (auto simp add: py_any_def list_ex_iff)

lemma discover_raises:
  assumes "\<not> os_path_exists os (fs p) []"
      and "profile \<noteq> DEFAULT_PROFILE"
      and "\<forall>c\<in>set (config_file_candidates h profile p). \<not> os_path_exists os (fs p) c"
  shows "discover_config_file_locations os h profile p =
           Inl (Exception (not_found_message profile (config_file_candidates h profile p)))"
  using assms by (simp add: discover_config_file_locations_def Let_def py_any_existing)

lemma discover_returns:
  assumes "\<not> os_path_exists os (fs p) []"
      and "profile = DEFAULT_PROFILE
           \<or> (\<exists>c\<in>set (config_file_candidates h profile p). os_path_exists os (fs p) c)"
  shows "discover_config_file_locations os h profile p =
           Inr (filter (os_path_exists os (fs p)) (config_file_candidates h profile p))"
  using assms by (auto simp add: discover_config_file_locations_def Let_def py_any_existing)

lemma reset_after_step:
  assumes "tmp_dir_step os tmp_dir_arg (p\<lparr>log_level := Some (level_of V v)\<rparr>) = (Inr u, p2)"
  shows "fst (reset os V profile rv_home_arg config_overrides tmp_dir_arg v p) =
           (case discover_config_file_locations os (resolve_rv_home rv_home_arg p2)
                   (resolve_profile profile p2) p2 of
              Inl e \<Rightarrow> Inl e
            | Inr locations \<Rightarrow>
                Inr \<lparr>verbosity = v, rv_home = resolve_rv_home rv_home_arg p2,
                     config = [ConfigDictEnv (case config_overrides of
                                                None \<Rightarrow> (\<lambda>_. None) | Some ov \<Rightarrow> ov),
                               ConfigOSEnv, ConfigIniEnv locations]\<rparr>)"
  using assms
  by (cases "discover_config_file_locations os (resolve_rv_home rv_home_arg p2)
               (resolve_profile profile p2) p2")
     (simp_all add: reset_def Let_def)

lemma reset_step_raises:
  assumes "tmp_dir_step os tmp_dir_arg (p\<lparr>log_level := Some (level_of V v)\<rparr>) = (Inl e, p2)"
  shows "reset os V profile rv_home_arg config_overrides tmp_dir_arg v p = (Inl e, p2)"
  using assms by (simp add: reset_def Let_def)

lemma tmp_dir_step_none: "tmp_dir_step os None p = (Inr (), p)"
  by (simp add: tmp_dir_step_def)

lemma sample_step_scratch:
  "fst (tmp_dir_step sample_os (Some ''/scratch'') (sample_process\<lparr>log_level := l\<rparr>)) = Inr ()"
  by (simp add: tmp_dir_step_def set_tmp_dir_def finally_makedirs_def assign_tmp_dir_def
      try_tmp_dir_def explicit_tmp_dir_def tmp_dir_candidates_def sample_process_def
      sample_os_def path_join_def)

lemma sample_step_scratch_fs:
  "fs (snd (tmp_dir_step sample_os (Some ''/scratch'') (sample_process\<lparr>log_level := l\<rparr>))) =
     \<lparr>dirs = [''/scratch''], files = [''/scratch/.can_touch''], locked = []\<rparr>"
  by (simp add: tmp_dir_step_def set_tmp_dir_def finally_makedirs_def assign_tmp_dir_def
      try_tmp_dir_def explicit_tmp_dir_def tmp_dir_candidates_def sample_process_def
      sample_os_def path_join_def)

lemma assign_tmp_dir_static:
  "environ (assign_tmp_dir os d p) = environ p
   \<and> home (assign_tmp_dir os d p) = home p
   \<and> cwd (assign_tmp_dir os d p) = cwd p"
  by (cases "try_tmp_dir os (fs p) d") (simp add: assign_tmp_dir_def split: option.splits)

lemma finally_makedirs_static:
  "environ (snd (finally_makedirs os p)) = environ p
   \<and> home (snd (finally_makedirs os p)) = home p
   \<and> cwd (snd (finally_makedirs os p)) = cwd p"
  by (simp add: finally_makedirs_def split: prod.splits option.splits)

lemma set_tmp_dir_static:
  "environ (snd (set_tmp_dir os a p)) = environ p
   \<and> home (snd (set_tmp_dir os a p)) = home p
   \<and> cwd (snd (set_tmp_dir os a p)) = cwd p"
  by (cases "explicit_tmp_dir os a p")
     (simp_all add: set_tmp_dir_def finally_makedirs_static assign_tmp_dir_static)

lemma tmp_dir_step_static:
  "environ (snd (tmp_dir_step os a p)) = environ p
   \<and> home (snd (tmp_dir_step os a p)) = home p
   \<and> cwd (snd (tmp_dir_step os a p)) = cwd p"
  by (cases a) (simp_all add: tmp_dir_step_def set_tmp_dir_static)

section \<open>set_tmp_dir: what is absorbed and what is raised\<close>

lemma finally_makedirs_raises:
  "fst (finally_makedirs os p) = Inl e \<longleftrightarrow>
     (case tmp_dir p of None \<Rightarrow> e = TypeError
      | Some root \<Rightarrow> fst (os_makedirs os (fs p) root) = Some e)"
  by (cases "tmp_dir p"; cases "os_makedirs os (fs p) (the (tmp_dir p))";
      cases "fst (os_makedirs os (fs p) (the (tmp_dir p)))")
     (auto simp add: finally_makedirs_def)

lemma finally_makedirs_returns:
  assumes mk: "\<And>f q f'. os_makedirs os f q = (None, f') \<Longrightarrow> os_path_isdir os f' q"
      and ret: "fst (finally_makedirs os p) = Inr u"
  shows "\<exists>root. tmp_dir (snd (finally_makedirs os p)) = Some root
           \<and> os_path_isdir os (fs (snd (finally_makedirs os p))) root"
proof (cases "tmp_dir p")
  case None
  with ret show ?thesis by (simp add: finally_makedirs_def)
next
  case (Some root)
  obtain r f2 where m: "os_makedirs os (fs p) root = (r, f2)" by (cases "os_makedirs os (fs p) root")
  with ret Some have "r = None" by (cases r) (simp_all add: finally_makedirs_def)
  with m mk have "os_path_isdir os f2 root" by simp
  with m Some \<open>r = None\<close> show ?thesis by (simp add: finally_makedirs_def)
qed

lemma sample_os_makedirs:
  "os_makedirs sample_os f q = (None, f') \<Longrightarrow> os_path_isdir sample_os f' q"
  by (auto simp add: sample_os_def split: if_splits)

text \<open>
  C2, as amended. Let \<^verbatim>\<open>os.makedirs\<close> leave a directory when it succeeds. Then:
  \<^verbatim>\<open>set_tmp_dir\<close> raises exactly when no candidate is present and the platform cannot
  generate a name, or when the final \<^verbatim>\<open>os.makedirs\<close> of the \<^verbatim>\<open>finally\<close> block raises on
  the root chosen; every failure to create, check or probe the candidate is absorbed,
  the root becoming the default path; and when the call returns, the root is set and is
  a directory on disk.
\<close>

theorem set_tmp_dir_absorbs_candidate_failures:
  assumes mk: "\<And>f q f'. os_makedirs os f q = (None, f') \<Longrightarrow> os_path_isdir os f' q"
  shows "(\<forall>e. fst (set_tmp_dir os a p) = Inl e \<longleftrightarrow>
            (explicit_tmp_dir os a p = Inl e
             \<or> (\<exists>d root. explicit_tmp_dir os a p = Inr d
                    \<and> tmp_dir (assign_tmp_dir os d p) = Some root
                    \<and> fst (os_makedirs os (fs (assign_tmp_dir os d p)) root) = Some e)))
       \<and> (\<forall>d. explicit_tmp_dir os a p = Inr d \<and> fst (try_tmp_dir os (fs p) d) \<noteq> None
              \<longrightarrow> tmp_dir (snd (set_tmp_dir os a p)) = Some DEFAULT_DIR)
       \<and> (\<forall>u. fst (set_tmp_dir os a p) = Inr u
              \<longrightarrow> (\<exists>root. tmp_dir (snd (set_tmp_dir os a p)) = Some root
                     \<and> os_path_isdir os (fs (snd (set_tmp_dir os a p))) root))"
proof (cases "explicit_tmp_dir os a p")
  case (Inl e')
  then show ?thesis by (simp add: set_tmp_dir_def)
next
  case (Inr d)
  have a: "\<forall>e. fst (set_tmp_dir os a p) = Inl e \<longleftrightarrow>
            (explicit_tmp_dir os a p = Inl e
             \<or> (\<exists>d root. explicit_tmp_dir os a p = Inr d
                    \<and> tmp_dir (assign_tmp_dir os d p) = Some root
                    \<and> fst (os_makedirs os (fs (assign_tmp_dir os d p)) root) = Some e))"
    using Inr by (simp add: set_tmp_dir_def finally_makedirs_raises assign_tmp_dir_cases)
  have b: "\<forall>d. explicit_tmp_dir os a p = Inr d \<and> fst (try_tmp_dir os (fs p) d) \<noteq> None
              \<longrightarrow> tmp_dir (snd (set_tmp_dir os a p)) = Some DEFAULT_DIR"
    by (simp add: set_tmp_dir_root)
  have c: "\<forall>u. fst (set_tmp_dir os a p) = Inr u
              \<longrightarrow> (\<exists>root. tmp_dir (snd (set_tmp_dir os a p)) = Some root
                     \<and> os_path_isdir os (fs (snd (set_tmp_dir os a p))) root)"
    using Inr finally_makedirs_returns [OF mk, where p = "assign_tmp_dir os d p"]
    by (simp add: set_tmp_dir_def)
  from a b c show ?thesis by blast
qed

text \<open>
  With \<^verbatim>\<open>/ro/x\<close> on a read-only mount the candidate fails, the call returns, the root is
  the default path and the default path is a directory afterwards.
\<close>

theorem set_tmp_dir_absorbs_candidate_failures_witness:
  "fst (try_tmp_dir sample_os (fs readonly_mount_process) ''/ro/x'') = Some (OSError ''/ro/x'')
   \<and> fst (set_tmp_dir sample_os (Some ''/ro/x'') readonly_mount_process) = Inr ()
   \<and> tmp_dir (snd (set_tmp_dir sample_os (Some ''/ro/x'') readonly_mount_process)) = Some DEFAULT_DIR
   \<and> os_path_isdir sample_os (fs (snd (set_tmp_dir sample_os (Some ''/ro/x'') readonly_mount_process)))
        DEFAULT_DIR"
proof -
  have t: "fst (try_tmp_dir sample_os (fs readonly_mount_process) ''/ro/x'') = Some (OSError ''/ro/x'')"
    by (simp add: try_tmp_dir_def sample_os_def readonly_mount_process_def sample_process_def)
  have r: "fst (set_tmp_dir sample_os (Some ''/ro/x'') readonly_mount_process) = Inr ()"
    by (simp add: set_tmp_dir_def finally_makedirs_def assign_tmp_dir_def try_tmp_dir_def
        explicit_tmp_dir_def tmp_dir_candidates_def readonly_mount_process_def sample_process_def
        sample_os_def DEFAULT_DIR_def)
  note T = set_tmp_dir_absorbs_candidate_failures [of sample_os "Some ''/ro/x''"
      readonly_mount_process, OF sample_os_makedirs]
  from T t have d: "tmp_dir (snd (set_tmp_dir sample_os (Some ''/ro/x'') readonly_mount_process))
      = Some DEFAULT_DIR"
    by (simp add: explicit_tmp_dir_given)
  from T r d have "os_path_isdir sample_os
      (fs (snd (set_tmp_dir sample_os (Some ''/ro/x'') readonly_mount_process))) DEFAULT_DIR"
    by auto
  with t r d show ?thesis by simp
qed

text \<open>
  As stated, the claim has \<^verbatim>\<open>set_tmp_dir\<close> never raise and the directory always exist.
  When the default path cannot be created either, the \<^verbatim>\<open>OSError\<close> of the final
  \<^verbatim>\<open>os.makedirs\<close> reaches the caller and the root names a path that does not exist.
\<close>

theorem set_tmp_dir_raises_counterexample:
  "fst (set_tmp_dir sample_os (Some ''/ro/x'') readonly_process) = Inl (OSError ''/opt/data/tmp/'')
   \<and> tmp_dir (snd (set_tmp_dir sample_os (Some ''/ro/x'') readonly_process)) = Some DEFAULT_DIR
   \<and> \<not> os_path_exists sample_os (fs (snd (set_tmp_dir sample_os (Some ''/ro/x'') readonly_process)))
         DEFAULT_DIR"
  by (simp add: set_tmp_dir_def finally_makedirs_def assign_tmp_dir_def try_tmp_dir_def
      explicit_tmp_dir_def tmp_dir_candidates_def readonly_process_def sample_process_def
      sample_os_def DEFAULT_DIR_def)

section \<open>The root along a sequence of operations\<close>

lemma try_tmp_dir_passed: "(fst (try_tmp_dir os f d) = None) = passed_checks os f d"
  by (cases "if \<not> os_path_exists os f d then os_makedirs os f d else (None, f)";
      cases "fst (if \<not> os_path_exists os f d then os_makedirs os f d else (None, f))")
     (auto simp add: try_tmp_dir_def passed_checks_def Let_def)

lemma set_tmp_dir_step:
  "tmp_dir (snd (set_tmp_dir os a p)) = tmp_dir p
   \<or> tmp_dir (snd (set_tmp_dir os a p)) = Some DEFAULT_DIR
   \<or> (\<exists>d. tmp_dir (snd (set_tmp_dir os a p)) = Some d \<and> passed_checks os (fs p) d)"
proof (cases "explicit_tmp_dir os a p")
  case (Inl e)
  then show ?thesis by (simp add: set_tmp_dir_def)
next
  case (Inr d)
  then show ?thesis
    using set_tmp_dir_root [OF Inr] by (simp add: try_tmp_dir_passed)
qed

lemma get_tmp_dir_root_tmp_dir:
  "tmp_dir (snd (get_tmp_dir_root os p)) =
     (if tmp_dir p = None then tmp_dir (snd (set_tmp_dir os None p)) else tmp_dir p)"
  by (cases "set_tmp_dir os None p"; cases "fst (set_tmp_dir os None p)")
     (simp_all add: get_tmp_dir_root_def)

lemma get_tmp_dir_tmp_dir:
  "tmp_dir (snd (get_tmp_dir os p)) =
     (if tmp_dir p = None then tmp_dir (snd (set_tmp_dir os None p)) else tmp_dir p)"
proof (cases "tmp_dir p = None")
  case True
  obtain r p' where s: "set_tmp_dir os None p = (r, p')" by (cases "set_tmp_dir os None p")
  show ?thesis
    using True s
    by (cases r; cases "tempdir_in os (fs p') (tmp_dir p')") (simp_all add: get_tmp_dir_def)
next
  case False
  then obtain y where y: "tmp_dir p = Some y" by blast
  show ?thesis
    by (cases "tempdir_in os (fs p) (Some y)") (simp_all add: get_tmp_dir_def y)
qed

lemma reset_tmp_dir:
  "tmp_dir (snd (reset os V profile rv_home_arg config_overrides tmp_dir_arg v p)) =
     (case tmp_dir_arg of
        None \<Rightarrow> tmp_dir p
      | Some d \<Rightarrow> tmp_dir (snd (set_tmp_dir os (Some d) (p\<lparr>log_level := Some (level_of V v)\<rparr>))))"
  by (cases tmp_dir_arg) (simp_all add: reset_state tmp_dir_step_def)

lemma exec_step:
  "tmp_dir (exec os V x p) = tmp_dir p
   \<or> tmp_dir (exec os V x p) = Some DEFAULT_DIR
   \<or> (\<exists>d. tmp_dir (exec os V x p) = Some d \<and> passed_checks os (fs p) d)"
proof (cases x)
  case (SetTmpDir a)
  then show ?thesis using set_tmp_dir_step [of os a p] by simp
next
  case GetTmpDirRoot
  then show ?thesis
    using set_tmp_dir_step [of os None p] by (auto simp add: get_tmp_dir_root_tmp_dir)
next
  case GetTmpDir
  then show ?thesis
    using set_tmp_dir_step [of os None p] by (auto simp add: get_tmp_dir_tmp_dir)
next
  case (Reset profile rv_home_arg config_overrides tmp_dir_arg v)
  show ?thesis
  proof (cases tmp_dir_arg)
    case None
    with Reset show ?thesis by (simp add: reset_tmp_dir)
  next
    case (Some d)
    with Reset show ?thesis
      using set_tmp_dir_step [of os "Some d" "p\<lparr>log_level := Some (level_of V v)\<rparr>"]
      by (simp add: reset_tmp_dir)
  qed
qed

lemma run_snoc: "run os V (ops @ [x]) p = exec os V x (run os V ops p)"
  by (simp add: run_def)


lemma set_and_kept_snoc:
  assumes n: "n < length ops"
      and k: "set_and_kept os V p0 ops d n"
      and x: "tmp_dir (run os V (ops @ [x]) p0) = Some d"
  shows "set_and_kept os V p0 (ops @ [x]) d n"
proof -
  have "passed_checks os (fs (run os V (take n (ops @ [x])) p0)) d"
    using n k by (simp add: set_and_kept_def)
  moreover have "tmp_dir (run os V (take m (ops @ [x])) p0) = Some d"
    if m: "m \<in> {n<..length (ops @ [x])}" for m
  proof (cases "m \<le> length ops")
    case True
    with m k show ?thesis by (simp add: set_and_kept_def)
  next
    case False
    with m have "m = Suc (length ops)" by simp
    with x show ?thesis by simp
  qed
  ultimately show ?thesis by (simp add: set_and_kept_def)
qed

lemma set_and_kept_last:
  assumes c: "passed_checks os (fs (run os V ops p0)) d"
      and x: "tmp_dir (run os V (ops @ [x]) p0) = Some d"
  shows "set_and_kept os V p0 (ops @ [x]) d (length ops)"
proof -
  have "tmp_dir (run os V (take m (ops @ [x])) p0) = Some d"
    if m: "m \<in> {length ops<..length (ops @ [x])}" for m
  proof -
    from m have "m = Suc (length ops)" by simp
    with x show ?thesis by simp
  qed
  with c show ?thesis by (simp add: set_and_kept_def)
qed




lemma invariant_step:
  assumes IH: "tmp_dir (run os V ops p0) = None
       \<or> tmp_dir (run os V ops p0) = Some DEFAULT_DIR
       \<or> (\<exists>d n. tmp_dir (run os V ops p0) = Some d \<and> n < length ops
              \<and> set_and_kept os V p0 ops d n)"
  shows "tmp_dir (run os V (ops @ [x]) p0) = None
       \<or> tmp_dir (run os V (ops @ [x]) p0) = Some DEFAULT_DIR
       \<or> (\<exists>d n. tmp_dir (run os V (ops @ [x]) p0) = Some d \<and> n < length (ops @ [x])
              \<and> set_and_kept os V p0 (ops @ [x]) d n)"
proof -
  define q where "q = run os V ops p0"
  define q' where "q' = run os V (ops @ [x]) p0"
  have e: "q' = exec os V x q" by (simp add: q_def q'_def run_snoc)
  from exec_step [of os V x q]
  consider (same) "tmp_dir q' = tmp_dir q"
    | (dflt) "tmp_dir q' = Some DEFAULT_DIR"
    | (probed) d where "tmp_dir q' = Some d" "passed_checks os (fs q) d"
    unfolding e by blast
  then have "tmp_dir q' = None
       \<or> tmp_dir q' = Some DEFAULT_DIR
       \<or> (\<exists>d n. tmp_dir q' = Some d \<and> n < length (ops @ [x])
              \<and> set_and_kept os V p0 (ops @ [x]) d n)"
  proof cases
    case same
    from IH consider (n) "tmp_dir q = None" | (d) "tmp_dir q = Some DEFAULT_DIR"
      | (k) d n where "tmp_dir q = Some d" "n < length ops" "set_and_kept os V p0 ops d n"
      unfolding q_def by auto
    then show ?thesis
    proof cases
      case n
      with same show ?thesis by simp
    next
      case d
      with same show ?thesis by simp
    next
      case k
      from k(1) same have x: "tmp_dir q' = Some d" by simp
      then have x': "tmp_dir (run os V (ops @ [x]) p0) = Some d" by (simp add: q'_def)
      have s: "set_and_kept os V p0 (ops @ [x]) d n"
        by (rule set_and_kept_snoc [OF k(2) k(3) x'])
      have l: "n < length (ops @ [x])" using k(2) by simp
      from x l s show ?thesis by auto
    qed
  next
    case dflt
    then show ?thesis by simp
  next
    case probed
    have x': "tmp_dir (run os V (ops @ [x]) p0) = Some d" using probed(1) by (simp add: q'_def)
    have c: "passed_checks os (fs (run os V ops p0)) d" using probed(2) by (simp add: q_def)
    have s: "set_and_kept os V p0 (ops @ [x]) d (length ops)"
      by (rule set_and_kept_last [OF c x'])
    have l: "length ops < length (ops @ [x])" by simp
    from probed(1) l s show ?thesis by auto
  qed
  then show ?thesis by (simp only: q'_def)
qed


text \<open>
  C9, as amended. From a process whose root is unset, after any sequence of operations
  the root is unset, or it is the default path, or it is a path \<open>d\<close> that an operation of
  the sequence found to exist (after creating it if absent), to be a directory and to
  take the marker file, and that has been the root since. The default path is accepted
  without these checks.
\<close>

theorem tmp_dir_state_invariant:
  assumes start: "tmp_dir p0 = None"
  shows "tmp_dir (run os V ops p0) = None
       \<or> tmp_dir (run os V ops p0) = Some DEFAULT_DIR
       \<or> (\<exists>d n. tmp_dir (run os V ops p0) = Some d \<and> n < length ops
              \<and> set_and_kept os V p0 ops d n)"
proof (induction ops rule: rev_induct)
  case Nil
  from start show ?case by (simp add: run_def)
next
  case (snoc x ops)
  then show ?case by (rule invariant_step)
qed

lemma sample_run_root:
  "tmp_dir (run sample_os sample_levels [SetTmpDir (Some ''/scratch''), GetTmpDirRoot] sample_process)
     = Some ''/scratch''"
  by (simp add: run_def get_tmp_dir_root_def set_tmp_dir_def finally_makedirs_def
      assign_tmp_dir_def try_tmp_dir_def explicit_tmp_dir_def tmp_dir_candidates_def
      sample_process_def sample_os_def path_join_def)

text \<open>
  After \<^verbatim>\<open>set_tmp_dir('/scratch')\<close> and \<^verbatim>\<open>get_tmp_dir_root()\<close> on the empty disk the root is
  \<^verbatim>\<open>/scratch\<close>, checked by one of the two operations and kept since.
\<close>

theorem tmp_dir_state_invariant_witness:
  "tmp_dir sample_process = None
   \<and> tmp_dir (run sample_os sample_levels [SetTmpDir (Some ''/scratch''), GetTmpDirRoot]
               sample_process) = Some ''/scratch''
   \<and> (\<exists>n. n < 2 \<and> set_and_kept sample_os sample_levels sample_process
                [SetTmpDir (Some ''/scratch''), GetTmpDirRoot] ''/scratch'' n)"
proof -
  have start: "tmp_dir sample_process = None" by (simp add: sample_process_def)
  have nd: "''/scratch'' \<noteq> DEFAULT_DIR" by (simp add: DEFAULT_DIR_def)
  from tmp_dir_state_invariant [OF start, of sample_os sample_levels
      "[SetTmpDir (Some ''/scratch''), GetTmpDirRoot]"] nd
  have "\<exists>n. n < 2 \<and> set_and_kept sample_os sample_levels sample_process
                [SetTmpDir (Some ''/scratch''), GetTmpDirRoot] ''/scratch'' n"
    by (simp add: sample_run_root numeral_2_eq_2)
  with start sample_run_root show ?thesis by simp
qed

text \<open>
  As stated, the claim has every root validated when it was set. After the fallback the
  root is the default path, which did not exist when it was assigned, never passed the
  checks, and, once created by the \<^verbatim>\<open>finally\<close> block, refuses the marker file.
\<close>

theorem tmp_dir_state_default_counterexample:
  "tmp_dir unwritable_default_process = None
   \<and> tmp_dir (run sample_os sample_levels [SetTmpDir (Some ''/ro/x'')] unwritable_default_process)
       = Some DEFAULT_DIR
   \<and> \<not> os_path_exists sample_os (fs unwritable_default_process) DEFAULT_DIR
   \<and> \<not> passed_checks sample_os (fs unwritable_default_process) DEFAULT_DIR
   \<and> fst (path_touch sample_os
            (fs (run sample_os sample_levels [SetTmpDir (Some ''/ro/x'')] unwritable_default_process))
            (path_join DEFAULT_DIR ''.can_touch'')) = Some (OSError ''/opt/data/tmp/.can_touch'')"
  by (simp add: run_def set_tmp_dir_def finally_makedirs_def assign_tmp_dir_def try_tmp_dir_def
      explicit_tmp_dir_def tmp_dir_candidates_def unwritable_default_process_def
      sample_process_def sample_os_def DEFAULT_DIR_def path_join_def passed_checks_def)

section \<open>Facts about the string helpers\<close>

lemma split_on_not_empty: "split_on sep s \<noteq> []"
  by (induction s) (auto split: list.splits)

lemma join_str_cons: "ys \<noteq> [] \<Longrightarrow> join_str sep (x # ys) = x @ sep @ join_str sep ys"
  by (cases ys) simp_all

lemma join_str_push: "join_str sep ((c # w) # ws) = c # join_str sep (w # ws)"
  by (cases ws) simp_all

lemma join_split_on: "join_str [sep] (split_on sep s) = s"
proof (induction s)
  case Nil
  show ?case by simp
next
  case (Cons c cs)
  show ?case
  proof (cases "c = sep")
    case True
    with Cons show ?thesis by (simp add: join_str_cons split_on_not_empty)
  next
    case False
    obtain w ws where s: "split_on sep cs = w # ws"
      using split_on_not_empty [of sep cs] by (cases "split_on sep cs") auto
    with False Cons show ?thesis by (simp add: join_str_push)
  qed
qed

lemma split_on_no_sep: "w \<in> set (split_on sep s) \<Longrightarrow> sep \<notin> set w"
proof (induction s arbitrary: w)
  case Nil
  then show ?case by simp
next
  case (Cons c cs)
  show ?case
  proof (cases "c = sep")
    case True
    with Cons show ?thesis by auto
  next
    case False
    obtain v vs where s: "split_on sep cs = v # vs"
      using split_on_not_empty [of sep cs] by (cases "split_on sep cs") auto
    with False Cons.prems have "w = c # v \<or> w \<in> set vs" by simp
    then show ?thesis
    proof
      assume "w = c # v"
      moreover have "sep \<notin> set v" using Cons.IH [of v] s by simp
      ultimately show ?thesis using False by simp
    next
      assume "w \<in> set vs"
      then show ?thesis using Cons.IH [of w] s by simp
    qed
  qed
qed

lemma split_on_length: "length (split_on sep s) = Suc (length (filter (\<lambda>c. c = sep) s))"
proof (induction s)
  case Nil
  show ?case by simp
next
  case (Cons c cs)
  obtain v vs where s: "split_on sep cs = v # vs"
    using split_on_not_empty [of sep cs] by (cases "split_on sep cs") auto
  with Cons show ?case by simp
qed

lemma strip_decomposition:
  "\<exists>pre post. w = pre @ strip w @ post
      \<and> list_all py_isspace pre \<and> list_all py_isspace post"
proof -
  let ?u = "dropWhile py_isspace w"
  have 1: "w = takeWhile py_isspace w @ ?u" by simp
  have "?u = rev (dropWhile py_isspace (rev ?u)) @ rev (takeWhile py_isspace (rev ?u))"
    by (metis rev_append rev_rev_ident takeWhile_dropWhile_id)
  then have 2: "?u = strip w @ rev (takeWhile py_isspace (rev ?u))"
    by (simp only: strip_def)
  have 3: "list_all py_isspace (takeWhile py_isspace w)"
    by (simp add: list_all_iff) (meson set_takeWhileD)
  have 4: "list_all py_isspace (rev (takeWhile py_isspace (rev ?u)))"
    by (simp add: list_all_iff) (meson set_takeWhileD)
  from 1 2 have "w = takeWhile py_isspace w @ strip w @ rev (takeWhile py_isspace (rev ?u))"
    by simp
  with 3 4 show ?thesis by blast
qed

lemma strip_ends:
  assumes "strip w \<noteq> []"
  shows "\<not> py_isspace (hd (strip w)) \<and> \<not> py_isspace (last (strip w))"
proof -
  let ?u = "dropWhile py_isspace w"
  let ?v = "dropWhile py_isspace (rev ?u)"
  from assms have v: "?v \<noteq> []" by (simp add: strip_def)
  then have "\<not> py_isspace (hd ?v)" by (rule hd_dropWhile)
  then have l: "\<not> py_isspace (last (strip w))" using v by (simp add: strip_def last_rev)
  have u: "?u \<noteq> []"
  proof
    assume "?u = []"
    then have "?v = dropWhile py_isspace (rev [])" by (simp only:)
    with v show False by simp
  qed
  then have hu: "\<not> py_isspace (hd ?u)" by (rule hd_dropWhile)
  have "?u = rev ?v @ rev (takeWhile py_isspace (rev ?u))"
    by (metis rev_append rev_rev_ident takeWhile_dropWhile_id)
  then have "?u = strip w @ rev (takeWhile py_isspace (rev ?u))" by (simp only: strip_def)
  then have "hd ?u = hd (strip w @ rev (takeWhile py_isspace (rev ?u)))" by simp
  with assms have "hd ?u = hd (strip w)" by simp
  with hu l show ?thesis by simp
qed

lemma replace_char_nth:
  "length (replace_char a b s) = length s
   \<and> (\<forall>i<length s. replace_char a b s ! i = (if s ! i = a then b else s ! i))"
  by (simp add: replace_char_def)

section \<open>load_conf_list\<close>

lemma load_conf_list_quoted:
  "load_conf_list json_loads ''['a', 'b']'' = Inr (PyList [PyStr ''a'', PyStr ''b''])"
  by code_simp

lemma load_conf_list_commas:
  "load_conf_list json_loads ''a, b ,c'' = Inr (PyList [PyStr ''a'', PyStr ''b'', PyStr ''c''])"
  by code_simp

text \<open>
  What \<^verbatim>\<open>load_conf_list\<close> computes, for every string \<open>s\<close> and every decoder: every single
  quote of \<open>s\<close> is replaced by a double quote and the result is decoded as a JSON
  document; the value decoded is returned as it is; when the decoder raises
  \<^verbatim>\<open>JSONDecodeError\<close> the result is the list of the pieces of the original \<open>s\<close> between its
  commas, each without its leading and trailing white space; any other exception
  leaves the function. With the decoder of this theory, \<^verbatim>\<open>['a', 'b']\<close> gives \<open>[a, b]\<close>
  and \<^verbatim>\<open>a, b ,c\<close> gives \<open>[a, b, c]\<close>.
\<close>

theorem load_conf_list_parses:
  "(\<forall>v. loads (replace_char (CHR 0x27) (CHR 0x22) s) = Inr v \<longrightarrow> load_conf_list loads s = Inr v)
   \<and> (loads (replace_char (CHR 0x27) (CHR 0x22) s) = Inl JSONDecodeError \<longrightarrow>
        load_conf_list loads s = Inr (PyList (map (\<lambda>x. PyStr (strip x)) (split_on (CHR '','') s))))
   \<and> (\<forall>e. loads (replace_char (CHR 0x27) (CHR 0x22) s) = Inl e \<and> e \<noteq> JSONDecodeError \<longrightarrow>
        load_conf_list loads s = Inl e)
   \<and> length (replace_char (CHR 0x27) (CHR 0x22) s) = length s
   \<and> (\<forall>i<length s. replace_char (CHR 0x27) (CHR 0x22) s ! i =
          (if s ! i = CHR 0x27 then CHR 0x22 else s ! i))
   \<and> join_str '','' (split_on (CHR '','') s) = s
   \<and> (\<forall>w\<in>set (split_on (CHR '','') s).
          CHR '','' \<notin> set w
          \<and> (\<exists>pre post. w = pre @ strip w @ post
                \<and> list_all py_isspace pre \<and> list_all py_isspace post)
          \<and> (strip w \<noteq> [] \<longrightarrow> \<not> py_isspace (hd (strip w)) \<and> \<not> py_isspace (last (strip w))))
   \<and> load_conf_list json_loads ''['a', 'b']'' = Inr (PyList [PyStr ''a'', PyStr ''b''])
   \<and> load_conf_list json_loads ''a, b ,c'' = Inr (PyList [PyStr ''a'', PyStr ''b'', PyStr ''c''])"
proof -
  have 1: "\<forall>v. loads (replace_char (CHR 0x27) (CHR 0x22) s) = Inr v \<longrightarrow> load_conf_list loads s = Inr v"
    by (simp add: load_conf_list_def)
  have 2: "loads (replace_char (CHR 0x27) (CHR 0x22) s) = Inl JSONDecodeError \<longrightarrow>
        load_conf_list loads s = Inr (PyList (map (\<lambda>x. PyStr (strip x)) (split_on (CHR '','') s)))"
    by (simp add: load_conf_list_def)
  have 3: "\<forall>e. loads (replace_char (CHR 0x27) (CHR 0x22) s) = Inl e \<and> e \<noteq> JSONDecodeError \<longrightarrow>
        load_conf_list loads s = Inl e"
    by (simp add: load_conf_list_def)
  have 4: "\<forall>w\<in>set (split_on (CHR '','') s).
          CHR '','' \<notin> set w
          \<and> (\<exists>pre post. w = pre @ strip w @ post
                \<and> list_all py_isspace pre \<and> list_all py_isspace post)
          \<and> (strip w \<noteq> [] \<longrightarrow> \<not> py_isspace (hd (strip w)) \<and> \<not> py_isspace (last (strip w)))"
    using split_on_no_sep strip_decomposition strip_ends by blast
  from 1 2 3 4 replace_char_nth [of "CHR 0x27" "CHR 0x22" s] join_split_on [of "CHR '',''" s]
    load_conf_list_quoted load_conf_list_commas
  show ?thesis by simp
qed

lemma sample_not_json: "json_loads (replace_char (CHR 0x27) (CHR 0x22) ''x , y,x'') = Inl JSONDecodeError"
  by code_simp

lemma sample_pieces:
  "map (\<lambda>x. PyStr (strip x)) (split_on (CHR '','') ''x , y,x'') = [PyStr ''x'', PyStr ''y'', PyStr ''x'']"
  by code_simp

lemma sample_json: "json_loads (replace_char (CHR 0x27) (CHR 0x22) ''['m.n']'') = Inr (PyList [PyStr ''m.n''])"
  by code_simp

text \<open>A comma-separated value with a repeated item, and a bracketed one.\<close>

theorem load_conf_list_parses_examples:
  "load_conf_list json_loads ''x , y,x'' = Inr (PyList [PyStr ''x'', PyStr ''y'', PyStr ''x''])
   \<and> load_conf_list json_loads ''['m.n']'' = Inr (PyList [PyStr ''m.n''])"
proof -
  from load_conf_list_parses [of json_loads "''x , y,x''"] sample_not_json
  have "load_conf_list json_loads ''x , y,x'' =
          Inr (PyList (map (\<lambda>x. PyStr (strip x)) (split_on (CHR '','') ''x , y,x'')))"
    by blast
  then have a: "load_conf_list json_loads ''x , y,x'' =
                  Inr (PyList [PyStr ''x'', PyStr ''y'', PyStr ''x''])"
    by (simp only: sample_pieces)
  from load_conf_list_parses [of json_loads "''['m.n']''"] sample_json
  have b: "load_conf_list json_loads ''['m.n']'' = Inr (PyList [PyStr ''m.n''])"
    by blast
  from a b show ?thesis by (rule conjI)
qed

text \<open>
  C5. The claim has \<^verbatim>\<open>load_conf_list\<close> parse a JSON array and fall back to the comma
  split otherwise, so that the result is always a list, as the docstring says ("Loads a
  list of items"). The code returns any JSON value that \<^verbatim>\<open>json.loads\<close> decodes: the text
  \<^verbatim>\<open>1\<close> gives the integer 1 and not the list of the one piece \<^verbatim>\<open>1\<close>, the text \<^verbatim>\<open>null\<close>
  gives \<^verbatim>\<open>None\<close>, and a single quoted name gives the bare string.
\<close>

theorem load_conf_list_returns_non_list:
  "load_conf_list json_loads ''1'' = Inr (PyInt 1)
   \<and> load_conf_list json_loads ''1'' \<noteq> Inr (PyList [PyStr ''1''])
   \<and> load_conf_list json_loads ''null'' = Inr PyNone
   \<and> load_conf_list json_loads (CHR 0x27 # ''rv.plugin'' @ [CHR 0x27]) = Inr (PyStr ''rv.plugin'')"
  by code_simp

section \<open>get_plugin_modules\<close>

text \<open>
  What \<^verbatim>\<open>get_plugin_modules\<close> computes: the empty list when the view of \<^verbatim>\<open>PLUGINS\<close> is
  false or the value of \<^verbatim>\<open>modules\<close> is the empty string; otherwise exactly what
  \<^verbatim>\<open>load_conf_list\<close> gives for the value: on the comma path the list of the stripped
  pieces, in order and with repetitions. An exception of the lookup leaves the function.
\<close>

theorem get_plugin_modules_cases:
  "get_plugin_modules truth call_default loads self =
     (if \<not> truth (get_subconfig self ''PLUGINS'') then Inr (PyList [])
      else case call_default (get_subconfig self ''PLUGINS'') ''modules'' [] of
             Inl e \<Rightarrow> Inl e
           | Inr s \<Rightarrow> if s = [] then Inr (PyList []) else load_conf_list loads s)
   \<and> (\<forall>s. truth (get_subconfig self ''PLUGINS'')
          \<and> call_default (get_subconfig self ''PLUGINS'') ''modules'' [] = Inr s \<and> s \<noteq> []
          \<and> loads (replace_char (CHR 0x27) (CHR 0x22) s) = Inl JSONDecodeError
          \<longrightarrow> get_plugin_modules truth call_default loads self =
                Inr (PyList (map (\<lambda>x. PyStr (strip x)) (split_on (CHR '','') s))))"
proof -
  have a: "get_plugin_modules truth call_default loads self =
     (if \<not> truth (get_subconfig self ''PLUGINS'') then Inr (PyList [])
      else case call_default (get_subconfig self ''PLUGINS'') ''modules'' [] of
             Inl e \<Rightarrow> Inl e
           | Inr s \<Rightarrow> if s = [] then Inr (PyList []) else load_conf_list loads s)"
    by (cases "call_default (get_subconfig self ''PLUGINS'') ''modules'' []")
       (simp_all add: get_plugin_modules_def Let_def)
  have b: "\<forall>s. truth (get_subconfig self ''PLUGINS'')
          \<and> call_default (get_subconfig self ''PLUGINS'') ''modules'' [] = Inr s \<and> s \<noteq> []
          \<and> loads (replace_char (CHR 0x27) (CHR 0x22) s) = Inl JSONDecodeError
          \<longrightarrow> get_plugin_modules truth call_default loads self =
                Inr (PyList (map (\<lambda>x. PyStr (strip x)) (split_on (CHR '','') s)))"
    by (simp add: a load_conf_list_def)
  from a b show ?thesis by (rule conjI)
qed

lemma sample_modules:
  "table_call_default [((''PLUGINS'', ''modules''), ''x , y,x'')]
     (get_subconfig sample_self ''PLUGINS'') ''modules'' [] = Inr ''x , y,x''"
  by (simp add: table_call_default_def get_subconfig_def)

text \<open>A value with a repeated item keeps it, in order; with no value the list is empty.\<close>

theorem get_plugin_modules_cases_examples:
  "get_plugin_modules (\<lambda>_. True) (table_call_default [((''PLUGINS'', ''modules''), ''x , y,x'')])
     json_loads sample_self = Inr (PyList [PyStr ''x'', PyStr ''y'', PyStr ''x''])
   \<and> get_plugin_modules (\<lambda>_. True) (table_call_default []) json_loads sample_self = Inr (PyList [])"
proof -
  have n: "''x , y,x'' \<noteq> []" by simp
  from get_plugin_modules_cases [of "\<lambda>_. True"
      "table_call_default [((''PLUGINS'', ''modules''), ''x , y,x'')]" json_loads sample_self]
    sample_modules sample_not_json n
  have "get_plugin_modules (\<lambda>_. True) (table_call_default [((''PLUGINS'', ''modules''), ''x , y,x'')])
     json_loads sample_self = Inr (PyList (map (\<lambda>x. PyStr (strip x)) (split_on (CHR '','') ''x , y,x'')))"
    by blast
  then have a: "get_plugin_modules (\<lambda>_. True)
     (table_call_default [((''PLUGINS'', ''modules''), ''x , y,x'')])
     json_loads sample_self = Inr (PyList [PyStr ''x'', PyStr ''y'', PyStr ''x''])"
    by (simp only: sample_pieces)
  have b: "get_plugin_modules (\<lambda>_. True) (table_call_default []) json_loads sample_self = Inr (PyList [])"
    using get_plugin_modules_cases [of "\<lambda>_. True" "table_call_default []" json_loads sample_self]
    by (simp add: table_call_default_def)
  from a b show ?thesis by (rule conjI)
qed

lemma load_conf_list_numbers:
  "load_conf_list json_loads ''1'' = Inr (PyInt 1)
   \<and> load_conf_list json_loads ''[1, 2]'' = Inr (PyList [PyInt 1, PyInt 2])"
  by code_simp

text \<open>
  C6. The claim has \<^verbatim>\<open>get_plugin_modules\<close> always return a sequence of strings. The code
  hands on what \<^verbatim>\<open>load_conf_list\<close> returns without a check: with \<^verbatim>\<open>modules = 1\<close> the
  result is the integer 1, and with \<^verbatim>\<open>modules = [1, 2]\<close> a list of integers.
\<close>

theorem get_plugin_modules_returns_non_strings:
  "get_plugin_modules (\<lambda>_. True) (table_call_default [((''PLUGINS'', ''modules''), ''1'')])
     json_loads sample_self = Inr (PyInt 1)
   \<and> get_plugin_modules (\<lambda>_. True) (table_call_default [((''PLUGINS'', ''modules''), ''[1, 2]'')])
     json_loads sample_self = Inr (PyList [PyInt 1, PyInt 2])"
  by (simp add: get_plugin_modules_def Let_def table_call_default_def get_subconfig_def
      load_conf_list_numbers)

section \<open>get_config_dict\<close>









lemma store_pairs_propagates:
  "\<exists>nk\<in>set ps. \<exists>e. lookup_of call self nk = Inl e \<Longrightarrow> \<exists>e. store_pairs call self ps d = Inl e"
proof (induction ps arbitrary: d)
  case Nil
  then show ?case by simp
next
  case (Cons nk ps)
  show ?case
  proof (cases "lookup_of call self nk")
    case (Inl e')
    then show ?thesis by simp
  next
    case (Inr v)
    with Cons.prems have "\<exists>nk\<in>set ps. \<exists>e. lookup_of call self nk = Inl e" by auto
    from Cons.IH [OF this] Inr show ?thesis by simp
  qed
qed












section \<open>The precedence of the sources\<close>

lemma discover_result:
  "discover_config_file_locations os h profile p = Inr locations \<Longrightarrow>
   locations = filter (os_path_exists os (fs p)) (config_file_candidates h profile p)"
  by (simp add: discover_config_file_locations_def Let_def split: if_splits)

lemma reset_config:
  assumes r: "reset os V profile rv_home_arg config_overrides tmp_dir_arg v p = (Inr self, p')"
  shows "config self =
           [ConfigDictEnv (case config_overrides of None \<Rightarrow> (\<lambda>_. None) | Some ov \<Rightarrow> ov),
            ConfigOSEnv,
            ConfigIniEnv (filter (os_path_exists os (fs p'))
              (config_file_candidates (resolve_rv_home rv_home_arg p') (resolve_profile profile p') p'))]
         \<and> environ p' = environ p"
proof -
  let ?p1 = "p\<lparr>log_level := Some (level_of V v)\<rparr>"
  obtain s p2 where step: "tmp_dir_step os tmp_dir_arg ?p1 = (s, p2)"
    by (cases "tmp_dir_step os tmp_dir_arg ?p1")
  have p': "p' = p2" using r reset_state [of os V profile rv_home_arg config_overrides tmp_dir_arg v p] step
    by simp
  have env: "environ p2 = environ p"
    using tmp_dir_step_static [of os tmp_dir_arg ?p1] step by simp
  show ?thesis
  proof (cases s)
    case (Inl e)
    with step have "tmp_dir_step os tmp_dir_arg ?p1 = (Inl e, p2)" by simp
    from reset_step_raises [OF this, of profile rv_home_arg config_overrides] r
    show ?thesis by simp
  next
    case (Inr u)
    with step have st: "tmp_dir_step os tmp_dir_arg ?p1 = (Inr u, p2)" by simp
    from reset_after_step [OF st, of profile rv_home_arg config_overrides] r
    have c: "(case discover_config_file_locations os (resolve_rv_home rv_home_arg p2)
                   (resolve_profile profile p2) p2 of
              Inl e \<Rightarrow> Inl e
            | Inr locations \<Rightarrow>
                Inr \<lparr>verbosity = v, rv_home = resolve_rv_home rv_home_arg p2,
                     config = [ConfigDictEnv (case config_overrides of
                                                None \<Rightarrow> (\<lambda>_. None) | Some ov \<Rightarrow> ov),
                               ConfigOSEnv, ConfigIniEnv locations]\<rparr>) = Inr self"
      by simp
    show ?thesis
    proof (cases "discover_config_file_locations os (resolve_rv_home rv_home_arg p2)
                   (resolve_profile profile p2) p2")
      case (Inl e)
      with c show ?thesis by simp
    next
      case (Inr locations)
      from discover_result [OF Inr] Inr c env p' show ?thesis by auto
    qed
  qed
qed

text \<open>
  C4. When \<^verbatim>\<open>reset\<close> returns, a lookup through the environments it has built, on the
  engine of the specification, returns the value the overrides give to the namespaced
  key if they define it; else the value of the environment variable; else the value of
  the first discovered file location, in discovery order, that defines it; else the
  default of the caller, or undefined.
\<close>

theorem lookup_precedence:
  assumes r: "reset os V profile rv_home_arg config_overrides tmp_dir_arg v p = (Inr self, p')"
  shows "manager_lookup ini (environ p') (config self) namespace key dflt =
     (case (case config_overrides of
              None \<Rightarrow> None
            | Some ov \<Rightarrow> (case ov namespace of None \<Rightarrow> None | Some m \<Rightarrow> m key)) of
        Some x \<Rightarrow> Some x
      | None \<Rightarrow>
          (case environ p (namespace @ ''_'' @ key) of
             Some x \<Rightarrow> Some x
           | None \<Rightarrow>
               (case first_some (map (\<lambda>location. ini location namespace key)
                       (filter (os_path_exists os (fs p'))
                          (config_file_candidates (resolve_rv_home rv_home_arg p')
                             (resolve_profile profile p') p'))) of
                  Some x \<Rightarrow> Some x
                | None \<Rightarrow> dflt)))"
proof -
  from reset_config [OF r] have c: "config self =
           [ConfigDictEnv (case config_overrides of None \<Rightarrow> (\<lambda>_. None) | Some ov \<Rightarrow> ov),
            ConfigOSEnv,
            ConfigIniEnv (filter (os_path_exists os (fs p'))
              (config_file_candidates (resolve_rv_home rv_home_arg p') (resolve_profile profile p') p'))]"
    and e: "environ p' = environ p" by simp_all
  show ?thesis
    unfolding c e manager_lookup_def
    by (cases config_overrides) (auto split: option.splits)
qed


lemma layered_reset_state:
  "snd (reset sample_os sample_levels None None ov None 1 layered_process) =
     layered_process\<lparr>log_level := Some (level_of sample_levels 1)\<rparr>"
  by (simp add: reset_state tmp_dir_step_none)

lemma layered_locations:
  "filter (os_path_exists sample_os (fs layered_process))
     (config_file_candidates (resolve_rv_home None (layered_process\<lparr>log_level := l\<rparr>))
        (resolve_profile None (layered_process\<lparr>log_level := l\<rparr>))
        (layered_process\<lparr>log_level := l\<rparr>)) = [''/work/.rastervision'']"
  by (simp add: config_file_candidates_def resolve_rv_home_def resolve_profile_def
      environ_truthy_def layered_process_def sample_process_def path_join_def sample_os_def
      DEFAULT_PROFILE_def)

lemma layered_reset_returns:
  "\<exists>self. reset sample_os sample_levels None None ov None 1 layered_process =
            (Inr self, layered_process\<lparr>log_level := Some (level_of sample_levels 1)\<rparr>)"
proof -
  let ?p1 = "layered_process\<lparr>log_level := Some (level_of sample_levels 1)\<rparr>"
  have e: "\<not> os_path_exists sample_os (fs ?p1) []" by (simp add: sample_os_def)
  have d: "resolve_profile None ?p1 = DEFAULT_PROFILE"
    by (simp add: resolve_profile_def environ_truthy_def layered_process_def sample_process_def)
  from discover_returns [OF e, of DEFAULT_PROFILE "resolve_rv_home None ?p1"]
  have "\<exists>locations. discover_config_file_locations sample_os (resolve_rv_home None ?p1)
          (resolve_profile None ?p1) ?p1 = Inr locations"
    by (simp add: d)
  with reset_after_step [OF tmp_dir_step_none, where os = sample_os and V = sample_levels
      and v = 1 and p = layered_process and profile = None and rv_home_arg = None
      and config_overrides = ov]
  have "\<exists>self. fst (reset sample_os sample_levels None None ov None 1 layered_process) = Inr self"
    by auto
  with layered_reset_state [of ov] show ?thesis by (auto simp add: prod_eq_iff)
qed

text \<open>
  With the override 1, the variable \<^verbatim>\<open>FOO_bar=2\<close> and the file value 3 the lookup of
  \<^verbatim>\<open>FOO.bar\<close> gives 1, and 2 without the override; \<^verbatim>\<open>FOO.baz\<close> comes from the file; a key
  that no source defines gives the default, or undefined.
\<close>

theorem lookup_precedence_witness:
  "(\<exists>self p'. reset sample_os sample_levels None None (Some layered_overrides) None 1 layered_process
                 = (Inr self, p')
        \<and> manager_lookup layered_ini (environ p') (config self) ''FOO'' ''bar'' None = Some ''1''
        \<and> manager_lookup layered_ini (environ p') (config self) ''FOO'' ''baz'' None = Some ''4''
        \<and> manager_lookup layered_ini (environ p') (config self) ''FOO'' ''qux'' (Some ''d'') = Some ''d''
        \<and> manager_lookup layered_ini (environ p') (config self) ''FOO'' ''qux'' None = None)
   \<and> (\<exists>self p'. reset sample_os sample_levels None None None None 1 layered_process = (Inr self, p')
        \<and> manager_lookup layered_ini (environ p') (config self) ''FOO'' ''bar'' None = Some ''2'')"
proof -
  let ?p1 = "layered_process\<lparr>log_level := Some (level_of sample_levels 1)\<rparr>"
  have env: "environ layered_process = [''FOO_bar'' \<mapsto> ''2'']"
    by (simp add: layered_process_def)
  obtain self where r: "reset sample_os sample_levels None None (Some layered_overrides) None 1
      layered_process = (Inr self, ?p1)"
    using layered_reset_returns [of "Some layered_overrides"] by blast
  note T = lookup_precedence [OF r, of layered_ini "''FOO''"]
  have a: "manager_lookup layered_ini (environ ?p1) (config self) ''FOO'' ''bar'' None = Some ''1''"
    using T [of "''bar''" None] by (simp add: layered_overrides_def)
  have b: "manager_lookup layered_ini (environ ?p1) (config self) ''FOO'' ''baz'' None = Some ''4''"
    using T [of "''baz''" None]
    by (simp add: layered_overrides_def env layered_locations layered_ini_def)
  have c: "manager_lookup layered_ini (environ ?p1) (config self) ''FOO'' ''qux'' (Some ''d'') = Some ''d''"
    using T [of "''qux''" "Some ''d''"]
    by (simp add: layered_overrides_def env layered_locations layered_ini_def)
  have d: "manager_lookup layered_ini (environ ?p1) (config self) ''FOO'' ''qux'' None = None"
    using T [of "''qux''" None]
    by (simp add: layered_overrides_def env layered_locations layered_ini_def)
  obtain self2 where r2: "reset sample_os sample_levels None None None None 1
      layered_process = (Inr self2, ?p1)"
    using layered_reset_returns [of None] by blast
  have e: "manager_lookup layered_ini (environ ?p1) (config self2) ''FOO'' ''bar'' None = Some ''2''"
    using lookup_precedence [OF r2, of layered_ini "''FOO''" "''bar''" None]
    by (simp add: env)
  from r a b c d r2 e show ?thesis by blast
qed

section \<open>ConfigurationNotFound\<close>

text \<open>
  The \<^verbatim>\<open>tmp_dir\<close> step of \<^verbatim>\<open>reset\<close> runs before the discovery; neither it nor the level
  assigned before it changes what the discovery reads (the environment, the home and the
  working directory).
\<close>

lemma tmp_dir_candidates_level_free:
  "tmp_dir_candidates a (p\<lparr>log_level := l\<rparr>) = tmp_dir_candidates a p"
  by (simp add: tmp_dir_candidates_def)

lemma explicit_tmp_dir_level_free:
  "explicit_tmp_dir os a (p\<lparr>log_level := l\<rparr>) = explicit_tmp_dir os a p"
  by (simp add: explicit_tmp_dir_def tmp_dir_candidates_def split: option.splits)

lemma assign_tmp_dir_level_free:
  "assign_tmp_dir os d (p\<lparr>log_level := l\<rparr>) = (assign_tmp_dir os d p)\<lparr>log_level := l\<rparr>"
  by (cases "try_tmp_dir os (fs p) d"; cases "fst (try_tmp_dir os (fs p) d)")
     (simp_all add: assign_tmp_dir_def)

lemma finally_makedirs_level_free:
  "fst (finally_makedirs os (q\<lparr>log_level := l\<rparr>)) = fst (finally_makedirs os q)"
proof (cases "tmp_dir q")
  case None
  then show ?thesis by (simp add: finally_makedirs_def)
next
  case (Some root)
  then show ?thesis
    by (cases "os_makedirs os (fs q) root"; cases "fst (os_makedirs os (fs q) root)")
       (simp_all add: finally_makedirs_def)
qed

lemma set_tmp_dir_level_free:
  "fst (set_tmp_dir os a (p\<lparr>log_level := l\<rparr>)) = fst (set_tmp_dir os a p)"
  by (cases "explicit_tmp_dir os a p")
     (simp_all add: set_tmp_dir_def explicit_tmp_dir_level_free assign_tmp_dir_level_free
        finally_makedirs_level_free)

lemma tmp_dir_step_outcome:
  "fst (tmp_dir_step os tmp_dir_arg (p\<lparr>log_level := l\<rparr>)) =
     (case tmp_dir_arg of None \<Rightarrow> Inr () | Some d \<Rightarrow> fst (set_tmp_dir os (Some d) p))"
  by (cases tmp_dir_arg) (simp_all add: tmp_dir_step_def set_tmp_dir_level_free)

lemma reset_static:
  "environ (snd (reset os V profile rv_home_arg config_overrides tmp_dir_arg v p)) = environ p
   \<and> home (snd (reset os V profile rv_home_arg config_overrides tmp_dir_arg v p)) = home p
   \<and> cwd (snd (reset os V profile rv_home_arg config_overrides tmp_dir_arg v p)) = cwd p"
  using tmp_dir_step_static [of os tmp_dir_arg "p\<lparr>log_level := Some (level_of V v)\<rparr>"]
  by (simp add: reset_state)

lemma environ_truthy_static:
  assumes "environ q = environ p"
  shows "environ_truthy q k = environ_truthy p k"
  unfolding environ_truthy_def assms by (rule refl)

lemma config_file_candidates_static:
  assumes "environ q = environ p" and "cwd q = cwd p"
  shows "config_file_candidates h prof q = config_file_candidates h prof p"
  unfolding config_file_candidates_def environ_truthy_static [OF assms(1)] assms(2) by (rule refl)

lemma resolve_profile_static:
  assumes "environ q = environ p"
  shows "resolve_profile profile q = resolve_profile profile p"
  unfolding resolve_profile_def environ_truthy_static [OF assms] by (rule refl)

lemma resolve_rv_home_static:
  assumes "home q = home p"
  shows "resolve_rv_home rv_home_arg q = resolve_rv_home rv_home_arg p"
  unfolding resolve_rv_home_def assms by (rule refl)


lemma reset_at_discovery:
  assumes step: "fst (tmp_dir_step os tmp_dir_arg (p\<lparr>log_level := Some (level_of V v)\<rparr>)) = Inr u"
  shows "fst (reset os V profile rv_home_arg config_overrides tmp_dir_arg v p) =
           (case discover_config_file_locations os (resolve_rv_home rv_home_arg p)
                   (resolve_profile profile p)
                   (snd (reset os V profile rv_home_arg config_overrides tmp_dir_arg v p)) of
              Inl e \<Rightarrow> Inl e
            | Inr locations \<Rightarrow>
                Inr \<lparr>verbosity = v, rv_home = resolve_rv_home rv_home_arg p,
                     config = [ConfigDictEnv (case config_overrides of
                                                None \<Rightarrow> (\<lambda>_. None) | Some ov \<Rightarrow> ov),
                               ConfigOSEnv, ConfigIniEnv locations]\<rparr>)"
proof -
  define p2 where "p2 = snd (tmp_dir_step os tmp_dir_arg (p\<lparr>log_level := Some (level_of V v)\<rparr>))"
  from step have s: "tmp_dir_step os tmp_dir_arg (p\<lparr>log_level := Some (level_of V v)\<rparr>) = (Inr u, p2)"
    by (simp add: prod_eq_iff p2_def)
  have st: "environ p2 = environ p" "home p2 = home p"
    using tmp_dir_step_static [of os tmp_dir_arg "p\<lparr>log_level := Some (level_of V v)\<rparr>"]
    by (simp_all add: p2_def)
  have r: "snd (reset os V profile rv_home_arg config_overrides tmp_dir_arg v p) = p2"
    unfolding p2_def by (rule reset_state)
  have rp: "resolve_profile profile p2 = resolve_profile profile p"
    by (rule resolve_profile_static [OF st(1)])
  have rh: "resolve_rv_home rv_home_arg p2 = resolve_rv_home rv_home_arg p"
    by (rule resolve_rv_home_static [OF st(2)])
  from reset_after_step [OF s, of profile rv_home_arg config_overrides]
  show ?thesis
    by (simp only: r rp rh)
qed

lemma discover_static:
  assumes "environ q = environ p" and "cwd q = cwd p"
  shows "discover_config_file_locations os h prof q =
     (if \<not> py_any (filter (os_path_exists os (fs q)) (config_file_candidates h prof p))
         \<and> prof \<noteq> DEFAULT_PROFILE
      then Inl (Exception (not_found_message prof (config_file_candidates h prof p)))
      else Inr (filter (os_path_exists os (fs q)) (config_file_candidates h prof p)))"
  unfolding discover_config_file_locations_def Let_def
    config_file_candidates_static [OF assms] by (rule refl)

lemma resolve_profile_spelled:
  "resolve_profile profile p =
     (case profile of
        Some pr \<Rightarrow> pr
      | None \<Rightarrow> (case environ p ''RV_PROFILE'' of
                   None \<Rightarrow> ''default''
                 | Some pr \<Rightarrow> if pr = [] then ''default'' else pr))"
  by (cases profile; cases "environ p ''RV_PROFILE''")
     (simp_all add: resolve_profile_def environ_truthy_def DEFAULT_PROFILE_def)

lemma resolve_rv_home_spelled:
  "resolve_rv_home rv_home_arg p =
     (case rv_home_arg of Some h \<Rightarrow> h | None \<Rightarrow> path_join (home p) ''.rastervision'')"
  by (cases rv_home_arg) (simp_all add: resolve_rv_home_def)

lemma config_file_candidates_spelled:
  "config_file_candidates base prof p =
     (case environ p ''RV_CONFIG'' of None \<Rightarrow> [] | Some c \<Rightarrow> if c = [] then [] else [c])
     @ [path_join (case environ p ''RV_CONFIG_DIR'' of
                     None \<Rightarrow> base
                   | Some d \<Rightarrow> if d = [] then base else d) prof,
        path_join (cwd p) ''.rastervision'']"
  by (cases "environ p ''RV_CONFIG''"; cases "environ p ''RV_CONFIG_DIR''")
     (simp_all add: config_file_candidates_def environ_truthy_def)


lemma reset_tmp_dir_returns:
  assumes "tmp_dir_arg = None \<or> (\<exists>d u. tmp_dir_arg = Some d \<and> fst (set_tmp_dir os (Some d) p) = Inr u)"
  shows "fst (tmp_dir_step os tmp_dir_arg (p\<lparr>log_level := l\<rparr>)) = Inr ()"
  using assms by (auto simp add: tmp_dir_step_outcome)

lemma reset_discovery_cases:
  assumes ret: "tmp_dir_arg = None \<or> (\<exists>d u. tmp_dir_arg = Some d \<and> fst (set_tmp_dir os (Some d) p) = Inr u)"
      and p2: "p2 = snd (reset os V profile rv_home_arg config_overrides tmp_dir_arg v p)"
      and empty: "\<not> os_path_exists os (fs p2) []"
  shows "fst (reset os V profile rv_home_arg config_overrides tmp_dir_arg v p) =
     (if resolve_profile profile p \<noteq> DEFAULT_PROFILE
         \<and> (\<forall>c\<in>set (config_file_candidates (resolve_rv_home rv_home_arg p)
                        (resolve_profile profile p) p). \<not> os_path_exists os (fs p2) c)
      then Inl (Exception (not_found_message (resolve_profile profile p)
                  (config_file_candidates (resolve_rv_home rv_home_arg p)
                     (resolve_profile profile p) p)))
      else Inr \<lparr>verbosity = v, rv_home = resolve_rv_home rv_home_arg p,
                config = [ConfigDictEnv (case config_overrides of
                                           None \<Rightarrow> (\<lambda>_. None) | Some ov \<Rightarrow> ov),
                          ConfigOSEnv,
                          ConfigIniEnv (filter (os_path_exists os (fs p2))
                            (config_file_candidates (resolve_rv_home rv_home_arg p)
                               (resolve_profile profile p) p))]\<rparr>)"
proof -
  have st: "environ p2 = environ p" "cwd p2 = cwd p"
    using reset_static [of os V profile rv_home_arg config_overrides tmp_dir_arg v p]
    by (simp_all add: p2)
  have d: "discover_config_file_locations os (resolve_rv_home rv_home_arg p)
             (resolve_profile profile p) p2 =
     (if resolve_profile profile p \<noteq> DEFAULT_PROFILE
         \<and> (\<forall>c\<in>set (config_file_candidates (resolve_rv_home rv_home_arg p)
                        (resolve_profile profile p) p). \<not> os_path_exists os (fs p2) c)
      then Inl (Exception (not_found_message (resolve_profile profile p)
                  (config_file_candidates (resolve_rv_home rv_home_arg p)
                     (resolve_profile profile p) p)))
      else Inr (filter (os_path_exists os (fs p2))
                  (config_file_candidates (resolve_rv_home rv_home_arg p)
                     (resolve_profile profile p) p)))"
    unfolding discover_static [OF st] py_any_existing [OF empty] by auto
  have "fst (reset os V profile rv_home_arg config_overrides tmp_dir_arg v p) =
           (case discover_config_file_locations os (resolve_rv_home rv_home_arg p)
                   (resolve_profile profile p)
                   (snd (reset os V profile rv_home_arg config_overrides tmp_dir_arg v p)) of
              Inl e \<Rightarrow> Inl e
            | Inr locations \<Rightarrow>
                Inr \<lparr>verbosity = v, rv_home = resolve_rv_home rv_home_arg p,
                     config = [ConfigDictEnv (case config_overrides of
                                                None \<Rightarrow> (\<lambda>_. None) | Some ov \<Rightarrow> ov),
                               ConfigOSEnv, ConfigIniEnv locations]\<rparr>)"
    by (rule reset_at_discovery [OF reset_tmp_dir_returns [OF ret]])
  then show ?thesis
    unfolding p2 [symmetric] d by (simp split: if_splits)
qed


lemma sample_reset_fs_none:
  "fs (snd (reset sample_os V profile rv_home_arg config_overrides None v p)) = fs p"
  by (simp add: reset_state tmp_dir_step_none)

lemma sample_set_scratch_returns:
  "fst (set_tmp_dir sample_os (Some ''/scratch'') sample_process) = Inr ()"
  by (simp add: set_tmp_dir_def finally_makedirs_def assign_tmp_dir_def
      try_tmp_dir_def explicit_tmp_dir_def tmp_dir_candidates_def sample_process_def
      sample_os_def path_join_def)

lemma sample_reset_fs_scratch:
  "fs (snd (reset sample_os V profile rv_home_arg config_overrides (Some ''/scratch'') v sample_process)) =
     \<lparr>dirs = [''/scratch''], files = [''/scratch/.can_touch''], locked = []\<rparr>"
  by (simp add: reset_state sample_step_scratch_fs)

lemma sample_process_fields:
  "environ sample_process = (\<lambda>_. None)" "home sample_process = ''/home/rv''"
  "cwd sample_process = ''/work''" "fs sample_process = \<lparr>dirs = [], files = [], locked = []\<rparr>"
  by (simp_all add: sample_process_def)


lemma sample_os_exists:
  "os_path_exists sample_os f q = (q \<noteq> [] \<and> (q \<in> set (dirs f) \<or> q \<in> set (files f)))"
  by (simp add: sample_os_def)


text \<open>
  As stated, the claim has \<^verbatim>\<open>reset\<close> raise the not-found exception whenever the profile is
  not the default one and no candidate exists. With \<^verbatim>\<open>tmp_dir = /ro/x\<close> on a disk where
  neither that directory nor the default root can be created, the profile \<^verbatim>\<open>missing\<close> and
  no candidate on the disk, \<^verbatim>\<open>reset\<close> raises the \<^verbatim>\<open>OSError\<close> of \<^verbatim>\<open>os.makedirs\<close> instead: the
  discovery is never reached.
\<close>

theorem reset_tmp_dir_first_counterexample:
  "fst (reset sample_os sample_levels (Some ''missing'') None None (Some ''/ro/x'') 1
          readonly_process) = Inl (OSError ''/opt/data/tmp/'')
   \<and> resolve_profile (Some ''missing'') readonly_process = ''missing''
   \<and> ''missing'' \<noteq> DEFAULT_PROFILE
   \<and> config_file_candidates (resolve_rv_home None readonly_process) ''missing'' readonly_process =
       [''/home/rv/.rastervision/missing'', ''/work/.rastervision'']
   \<and> filter (os_path_exists sample_os
        (fs (snd (reset sample_os sample_levels (Some ''missing'') None None (Some ''/ro/x'') 1
                    readonly_process))))
        [''/home/rv/.rastervision/missing'', ''/work/.rastervision''] = []"
  by (simp add: reset_def tmp_dir_step_def set_tmp_dir_def finally_makedirs_def assign_tmp_dir_def
      try_tmp_dir_def explicit_tmp_dir_def tmp_dir_candidates_def readonly_process_def
      sample_process_def sample_os_def DEFAULT_DIR_def DEFAULT_PROFILE_def resolve_profile_def
      resolve_rv_home_def config_file_candidates_def environ_truthy_def path_join_def Let_def)

section \<open>What a failed reset leaves behind\<close>

lemma reset_root_given:
  "tmp_dir (snd (reset os V profile rv_home_arg config_overrides (Some d) v p)) =
     Some (if passed_checks os (fs p) d then d else DEFAULT_DIR)"
proof -
  have "tmp_dir (snd (set_tmp_dir os (Some d) (p\<lparr>log_level := Some (level_of V v)\<rparr>))) =
          Some (if fst (try_tmp_dir os (fs (p\<lparr>log_level := Some (level_of V v)\<rparr>)) d) = None
                then d else DEFAULT_DIR)"
    by (rule set_tmp_dir_root [OF explicit_tmp_dir_given])
  then show ?thesis by (simp add: reset_tmp_dir try_tmp_dir_passed)
qed

lemma reset_level:
  "log_level (snd (reset os V profile rv_home_arg config_overrides tmp_dir_arg v p)) =
     Some (if v \<ge> VERBOSE V then DEBUG else if v \<ge> NORMAL V then INFO else WARN)"
  by (simp add: reset_state tmp_dir_step_log_level level_of_def)

text \<open>
  C10. When \<^verbatim>\<open>reset\<close> reaches the discovery (no \<^verbatim>\<open>tmp_dir\<close> is given, or \<^verbatim>\<open>set_tmp_dir\<close>
  returned) with a profile that is not \<^verbatim>\<open>default\<close> and no candidate exists, it raises the
  not-found exception, and the process state it leaves has the logger's level the
  verbosity selects (debug from \<^verbatim>\<open>VERBOSE\<close> up, info from \<^verbatim>\<open>NORMAL\<close> up, warning below) and,
  when a \<^verbatim>\<open>tmp_dir\<close> was given, the root set by \<^verbatim>\<open>set_tmp_dir\<close>: the given directory if it
  passed the checks, \<^verbatim>\<open>/opt/data/tmp/\<close> otherwise. With no \<^verbatim>\<open>tmp_dir\<close> the root is left as it
  was.
\<close>

theorem reset_failure_not_atomic:
  assumes ret: "tmp_dir_arg = None
                \<or> (\<exists>d u. tmp_dir_arg = Some d \<and> fst (set_tmp_dir os (Some d) p) = Inr u)"
      and p2: "p2 = snd (reset os V profile rv_home_arg config_overrides tmp_dir_arg v p)"
      and empty: "\<not> os_path_exists os (fs p2) []"
      and prof: "prof = (case profile of
                          Some pr \<Rightarrow> pr
                        | None \<Rightarrow> (case environ p ''RV_PROFILE'' of
                                     None \<Rightarrow> ''default''
                                   | Some pr \<Rightarrow> if pr = [] then ''default'' else pr))"
      and base: "base = (case rv_home_arg of
                          Some h \<Rightarrow> h
                        | None \<Rightarrow> path_join (home p) ''.rastervision'')"
      and cands: "cands =
                    (case environ p ''RV_CONFIG'' of
                       None \<Rightarrow> []
                     | Some c \<Rightarrow> if c = [] then [] else [c])
                    @ [path_join (case environ p ''RV_CONFIG_DIR'' of
                                    None \<Rightarrow> base
                                  | Some d \<Rightarrow> if d = [] then base else d) prof,
                       path_join (cwd p) ''.rastervision'']"
      and nd: "prof \<noteq> ''default''"
      and none: "\<forall>c\<in>set cands. \<not> os_path_exists os (fs p2) c"
  shows "fst (reset os V profile rv_home_arg config_overrides tmp_dir_arg v p) =
           Inl (Exception (''Configuration Profile '' @ prof @ '' not found. Checked: ''
                           @ join_str '', '' cands))
       \<and> log_level p2 = Some (if v \<ge> VERBOSE V then DEBUG else if v \<ge> NORMAL V then INFO else WARN)
       \<and> (\<forall>d. tmp_dir_arg = Some d \<longrightarrow>
             tmp_dir p2 = Some (if passed_checks os (fs p) d then d else ''/opt/data/tmp/''))
       \<and> (tmp_dir_arg = None \<longrightarrow> tmp_dir p2 = tmp_dir p)"
proof -
  have rp: "resolve_profile profile p = prof" by (simp only: prof resolve_profile_spelled)
  have rh: "resolve_rv_home rv_home_arg p = base" by (simp only: base resolve_rv_home_spelled)
  have cc: "config_file_candidates base prof p = cands"
    by (simp only: cands config_file_candidates_spelled)
  note R = reset_discovery_cases [OF ret p2 empty,
      unfolded rp rh cc DEFAULT_PROFILE_def not_found_message_def]
  have a: "fst (reset os V profile rv_home_arg config_overrides tmp_dir_arg v p) =
           Inl (Exception (''Configuration Profile '' @ prof @ '' not found. Checked: ''
                           @ join_str '', '' cands))"
    unfolding R using nd none by simp
  have b: "log_level p2 = Some (if v \<ge> VERBOSE V then DEBUG else if v \<ge> NORMAL V then INFO else WARN)"
    unfolding p2 by (rule reset_level)
  have c: "\<forall>d. tmp_dir_arg = Some d \<longrightarrow>
             tmp_dir p2 = Some (if passed_checks os (fs p) d then d else ''/opt/data/tmp/'')"
    unfolding p2 by (simp add: reset_root_given DEFAULT_DIR_def)
  have d: "tmp_dir_arg = None \<longrightarrow> tmp_dir p2 = tmp_dir p"
    unfolding p2 by (simp add: reset_tmp_dir)
  from a b c d show ?thesis by blast
qed

lemma readonly_mount_fields:
  "environ readonly_mount_process = (\<lambda>_. None)" "home readonly_mount_process = ''/home/rv''"
  "cwd readonly_mount_process = ''/work''"
  "fs readonly_mount_process = \<lparr>dirs = [], files = [], locked = [''/ro/x'']\<rparr>"
  by (simp_all add: readonly_mount_process_def sample_process_def)

lemma sample_set_readonly_returns:
  "fst (set_tmp_dir sample_os (Some ''/ro/x'') readonly_mount_process) = Inr ()"
  by (simp add: set_tmp_dir_def finally_makedirs_def assign_tmp_dir_def try_tmp_dir_def
      explicit_tmp_dir_def tmp_dir_candidates_def readonly_mount_process_def sample_process_def
      sample_os_def DEFAULT_DIR_def)

lemma sample_reset_fs_readonly:
  "fs (snd (reset sample_os V profile rv_home_arg config_overrides (Some ''/ro/x'') v
              readonly_mount_process)) =
     \<lparr>dirs = [''/opt/data/tmp/''], files = [], locked = [''/ro/x'']\<rparr>"
  by (simp add: reset_state tmp_dir_step_def set_tmp_dir_def finally_makedirs_def
      assign_tmp_dir_def try_tmp_dir_def explicit_tmp_dir_def tmp_dir_candidates_def
      readonly_mount_process_def sample_process_def sample_os_def DEFAULT_DIR_def)

lemma sample_checks:
  "passed_checks sample_os \<lparr>dirs = [], files = [], locked = []\<rparr> ''/scratch''"
  "\<not> passed_checks sample_os \<lparr>dirs = [], files = [], locked = [''/ro/x'']\<rparr> ''/ro/x''"
  by (simp_all add: passed_checks_def sample_os_def path_join_def)

text \<open>
  From a process with no level and no root, the failed call leaves the level at debug
  and the root at \<^verbatim>\<open>/scratch\<close> for verbosity 2; the level at warning and no root for
  verbosity 0 and no \<^verbatim>\<open>tmp_dir\<close>; the level at info and the default root for
  verbosity 1 and a \<^verbatim>\<open>tmp_dir\<close> that cannot be created.
\<close>

theorem reset_failure_not_atomic_witness:
  "log_level sample_process = None \<and> tmp_dir sample_process = None
   \<and> fst (reset sample_os sample_levels (Some ''missing'') None None (Some ''/scratch'') 2
             sample_process) =
       Inl (Exception (''Configuration Profile missing not found. '' @
                        ''Checked: /home/rv/.rastervision/missing, /work/.rastervision''))
   \<and> log_level (snd (reset sample_os sample_levels (Some ''missing'') None None
                        (Some ''/scratch'') 2 sample_process)) = Some DEBUG
   \<and> tmp_dir (snd (reset sample_os sample_levels (Some ''missing'') None None
                      (Some ''/scratch'') 2 sample_process)) = Some ''/scratch''
   \<and> log_level (snd (reset sample_os sample_levels (Some ''missing'') None None None 0
                        sample_process)) = Some WARN
   \<and> tmp_dir (snd (reset sample_os sample_levels (Some ''missing'') None None None 0
                      sample_process)) = None
   \<and> log_level (snd (reset sample_os sample_levels (Some ''missing'') None None
                        (Some ''/ro/x'') 1 readonly_mount_process)) = Some INFO
   \<and> tmp_dir (snd (reset sample_os sample_levels (Some ''missing'') None None
                      (Some ''/ro/x'') 1 readonly_mount_process)) = Some ''/opt/data/tmp/''"
proof -
  have e: "\<And>f. \<not> os_path_exists sample_os f []" by (simp add: sample_os_exists)
  have nd: "(case Some ''missing'' of Some pr \<Rightarrow> pr
             | None \<Rightarrow> (case environ q ''RV_PROFILE'' of None \<Rightarrow> ''default''
                         | Some pr \<Rightarrow> if pr = [] then ''default'' else pr)) \<noteq> ''default''"
    for q :: "sample_fs process"
    by simp
  have r1: "Some ''/scratch'' = None
      \<or> (\<exists>d u. Some ''/scratch'' = Some d \<and> fst (set_tmp_dir sample_os (Some d) sample_process) = Inr u)"
    by (simp add: sample_set_scratch_returns)
  note A = reset_failure_not_atomic [where os = sample_os and V = sample_levels
      and profile = "Some ''missing''" and rv_home_arg = None and config_overrides = None
      and tmp_dir_arg = "Some ''/scratch''" and v = 2 and p = sample_process,
      OF r1 refl e refl refl refl nd]
  have a: "fst (reset sample_os sample_levels (Some ''missing'') None None (Some ''/scratch'') 2
             sample_process) =
       Inl (Exception (''Configuration Profile missing not found. '' @
                        ''Checked: /home/rv/.rastervision/missing, /work/.rastervision''))
   \<and> log_level (snd (reset sample_os sample_levels (Some ''missing'') None None
                        (Some ''/scratch'') 2 sample_process)) = Some DEBUG
   \<and> tmp_dir (snd (reset sample_os sample_levels (Some ''missing'') None None
                      (Some ''/scratch'') 2 sample_process)) = Some ''/scratch''"
    using A
    by (simp add: sample_reset_fs_scratch sample_process_fields sample_os_exists path_join_def
        sample_checks sample_levels_def)
  have r2: "(None :: string option) = None
      \<or> (\<exists>d u. (None :: string option) = Some d
            \<and> fst (set_tmp_dir sample_os (Some d) sample_process) = Inr u)"
    by simp
  note B = reset_failure_not_atomic [where os = sample_os and V = sample_levels
      and profile = "Some ''missing''" and rv_home_arg = None and config_overrides = None
      and tmp_dir_arg = None and v = 0 and p = sample_process,
      OF r2 refl e refl refl refl nd]
  have b: "log_level (snd (reset sample_os sample_levels (Some ''missing'') None None None 0
                        sample_process)) = Some WARN
   \<and> tmp_dir (snd (reset sample_os sample_levels (Some ''missing'') None None None 0
                      sample_process)) = None"
    using B
    by (simp add: sample_reset_fs_none sample_process_fields sample_os_exists path_join_def
        sample_levels_def)
       (simp add: sample_process_def)
  have r3: "Some ''/ro/x'' = None
      \<or> (\<exists>d u. Some ''/ro/x'' = Some d
            \<and> fst (set_tmp_dir sample_os (Some d) readonly_mount_process) = Inr u)"
    by (simp add: sample_set_readonly_returns)
  note C = reset_failure_not_atomic [where os = sample_os and V = sample_levels
      and profile = "Some ''missing''" and rv_home_arg = None and config_overrides = None
      and tmp_dir_arg = "Some ''/ro/x''" and v = 1 and p = readonly_mount_process,
      OF r3 refl e refl refl refl nd]
  have c: "log_level (snd (reset sample_os sample_levels (Some ''missing'') None None
                        (Some ''/ro/x'') 1 readonly_mount_process)) = Some INFO
   \<and> tmp_dir (snd (reset sample_os sample_levels (Some ''missing'') None None
                      (Some ''/ro/x'') 1 readonly_mount_process)) = Some ''/opt/data/tmp/''"
    using C
    by (simp add: sample_reset_fs_readonly readonly_mount_fields sample_os_exists path_join_def
        sample_checks sample_levels_def)
  have s: "log_level sample_process = None \<and> tmp_dir sample_process = None"
    by (simp add: sample_process_def)
  from s a b c show ?thesis by blast
qed

end
